theory Spec2Isabelle
  imports Complex_Main
begin

section \<open>Data model\<close>

text \<open>
  The history entry of \<^verbatim>\<open>types.ts\<close> (interface \<^verbatim>\<open>GeneratedVideo\<close>). The optional field
  \<^verbatim>\<open>videoObject\<close> is never read by the editor and is left to the record's extension.
  The field \<^verbatim>\<open>id\<close> is named \<open>id_v\<close>, since \<open>id\<close> is the identity function of HOL;
  \<^verbatim>\<open>createdAt\<close> is the timestamp in milliseconds.
\<close>

record GeneratedVideo =
  id_v :: string
  url :: string
  prompt :: string
  createdAt :: int
  model :: string
  aspectRatio :: string

section \<open>Encoder format selection\<close>

text \<open>
  \<^verbatim>\<open>getSupportedMimeType\<close>: the platform's \<^verbatim>\<open>MediaRecorder.isTypeSupported\<close> is the
  parameter \<open>isTypeSupported\<close>; the \<^verbatim>\<open>for ... of\<close> loop with its early return is
  \<open>firstSupported\<close>.
\<close>

definition types :: "string list" where
  "types = [''video/webm;codecs=vp9'', ''video/webm;codecs=vp8'', ''video/webm'', ''video/mp4'']"

fun firstSupported :: "(string \<Rightarrow> bool) \<Rightarrow> string list \<Rightarrow> string" where
  "firstSupported isTypeSupported [] = ''''"
| "firstSupported isTypeSupported (t # ts) =
     (if isTypeSupported t then t else firstSupported isTypeSupported ts)"

definition getSupportedMimeType :: "(string \<Rightarrow> bool) \<Rightarrow> string" where
  "getSupportedMimeType isTypeSupported = firstSupported isTypeSupported types"

section \<open>Frame compositor\<close>

text \<open>
  The 2D context as \<^verbatim>\<open>renderFrame\<close> uses it: the style properties it assigns, and the
  drawing commands it issues. JavaScript numbers are modelled as reals. The font string
  \<^verbatim>\<open>`900 ${fontSize}px system-ui, -apple-system, sans-serif`\<close> is kept in its parts
  (weight, size in pixels, family).
\<close>

datatype font_spec = FontCss string | FontSized nat real string

record canvas_state =
  font :: font_spec
  textAlign :: string
  textBaseline :: string
  lineWidth :: real
  strokeStyle :: string
  lineJoin :: string
  lineCap :: string
  shadowColor :: string
  shadowBlur :: real
  shadowOffsetX :: real
  shadowOffsetY :: real
  fillStyle :: string

text \<open>
  A text command is drawn with the style that is current when it is issued, so it carries
  that style.
\<close>

datatype 'src draw_op =
    DrawImage 'src real real real real
  | StrokeText canvas_state string real real
  | FillText canvas_state string real real

text \<open>
  \<^verbatim>\<open>renderFrame(ctx, source, text, width, height)\<close> returns the context's new style state
  and the drawing commands issued, in order. \<^verbatim>\<open>if (text)\<close> on a string is true exactly
  when the string is not empty.
\<close>

definition renderFrame ::
  "canvas_state \<Rightarrow> 'src \<Rightarrow> string \<Rightarrow> real \<Rightarrow> real \<Rightarrow> canvas_state \<times> 'src draw_op list" where
  "renderFrame ctx source text width height =
     (let draw = DrawImage source 0 0 width height in
      if text \<noteq> [] then
        (let fontSize = height * 0.08;
             ctx1 = ctx\<lparr>font := FontSized 900 fontSize ''system-ui, -apple-system, sans-serif'',
                        textAlign := ''center'',
                        textBaseline := ''bottom''\<rparr>;
             x = width / 2;
             y = height - (height * 0.1);
             ctx2 = ctx1\<lparr>lineWidth := fontSize * 0.12,
                         strokeStyle := ''rgba(0, 0, 0, 0.8)'',
                         lineJoin := ''round'',
                         lineCap := ''round''\<rparr>;
             ctx3 = ctx2\<lparr>shadowColor := ''rgba(0,0,0,0.5)'',
                         shadowBlur := fontSize * 0.2,
                         shadowOffsetX := fontSize * 0.05,
                         shadowOffsetY := fontSize * 0.05\<rparr>;
             stroke = StrokeText ctx3 text x y;
             ctx4 = ctx3\<lparr>shadowColor := ''transparent'',
                         shadowBlur := 0,
                         shadowOffsetX := 0,
                         shadowOffsetY := 0\<rparr>;
             ctx5 = ctx4\<lparr>fillStyle := ''white''\<rparr>;
             fill = FillText ctx5 text x y
         in (ctx5, [draw, stroke, fill]))
      else (ctx, [draw]))"

fun isTextOp :: "'src draw_op \<Rightarrow> bool" where
  "isTextOp (DrawImage s x y w h) = False"
| "isTextOp (StrokeText c t x y) = True"
| "isTextOp (FillText c t x y) = True"

section \<open>Errors, effects and the editor state\<close>

text \<open>
  The \<^verbatim>\<open>Error\<close> values of the editor, one constructor for each message the source
  builds: the two \<^verbatim>\<open>throw\<close>s of the canvas set-up, the not-ok response of
  \<^verbatim>\<open>fetchVideoAsBlobUrl\<close> (with the status text), the two rejections of the load promise
  (with the queue id), the error re-thrown by the merge loop (with \<^verbatim>\<open>i + 1\<close>), and the two
  rejections of the recorder's stop handler. \<open>PlatformError\<close> is an error a platform
  promise rejects with (\<^verbatim>\<open>resume\<close>, \<^verbatim>\<open>play\<close>, \<^verbatim>\<open>fetch\<close>, the recorder's error event).
  \<open>SourceNotReady\<close> is the message set when \<^verbatim>\<open>localVideoSrc\<close> is missing.
\<close>

datatype error =
    SourceNotReady
  | InvalidDimensions
  | NoCanvasContext
  | PlatformError string
  | FetchNotOk string
  | LoadFailed string
  | LoadTimeout string
  | QueueItemFailed nat
  | EmptyOutput
  | OutputTooSmall

text \<open>
  An awaited computation either completes with a value, throws, or never completes
  (\<open>Pending\<close>: the promise is never settled). A platform promise is given by the
  environment as \<open>'a settled\<close>.
\<close>

datatype 'a outcome = Done 'a | Thrown error | Pending

datatype 'a settled = Resolves 'a | Rejects error | NeverSettles

text \<open>
  Encoded data and blobs are byte lists; a \<^verbatim>\<open>Blob\<close> has its bytes and its type. A frame of
  the video element is named by the element's source and position.
\<close>

type_synonym bytes = "nat list"

record blob =
  blobBytes :: bytes
  blobType :: string

type_synonym frame = "string \<times> real"

text \<open>The effects of a run of the export procedure that the properties below speak about.\<close>

datatype event =
    Canvas "frame draw_op"
  | NewAudioContext
  | CaptureStream nat
  | ConnectSource
  | DisconnectSource
  | CloseAudio
  | AddTrack
  | NewRecorder string
  | RecorderStart nat
  | RecorderStop
  | Delay nat
  | PauseVideo
  | PlayVideo
  | Fetch string
  | CreateObjectURL blob string
  | RevokeObjectURL string
  | OnSave string

datatype audio_state = Suspended | Running | Closed

text \<open>
  The React state of \<^verbatim>\<open>VideoEditor\<close>; the video element's \<^verbatim>\<open>src\<close> and \<^verbatim>\<open>currentTime\<close>
  (\<open>videoSrc\<close>, \<open>videoTime\<close>); the locals of \<^verbatim>\<open>processVideo\<close> that its handlers share
  (\<open>ctx\<close>, the style state of the processing canvas's context; \<open>audioCtx\<close>, the state of
  the audio context; \<open>tempMergeBlobs\<close>); and \<open>trace\<close>, the effects of the current run of
  \<^verbatim>\<open>processVideo\<close> in order. \<open>errorMessage\<close> holds the error whose message is shown.
\<close>

record editor =
  isPlaying :: bool
  duration :: real
  processing :: bool
  progress :: nat
  errorMessage :: "error option"
  localVideoSrc :: "string option"
  trimStart :: real
  trimEnd :: real
  textOverlay :: string
  mergeQueue :: "string list"
  failedQueueIndices :: "nat set"
  videoSrc :: string
  videoTime :: real
  ctx :: canvas_state
  audioCtx :: audio_state
  tempMergeBlobs :: "string list"
  trace :: "event list"

section \<open>Editor controls\<close>

text \<open>
  The state of a freshly mounted editor whose source has been fetched as \<open>src\<close>; \<open>c\<close> is
  the style state of the processing canvas's context.
\<close>

definition initialEditor :: "string \<Rightarrow> canvas_state \<Rightarrow> editor" where
  "initialEditor src c = \<lparr>isPlaying = False, duration = 0, processing = False, progress = 0,
     errorMessage = None, localVideoSrc = Some src, trimStart = 0, trimEnd = 0,
     textOverlay = '''', mergeQueue = [], failedQueueIndices = {}, videoSrc = src,
     videoTime = 0, ctx = c, audioCtx = Suspended, tempMergeBlobs = [], trace = []\<rparr>"

text \<open>\<^verbatim>\<open>handleLoadedMetadata\<close>, with \<open>dur\<close> the element's duration.\<close>

definition handleLoadedMetadata :: "real \<Rightarrow> editor \<Rightarrow> editor" where
  "handleLoadedMetadata dur st =
     (if duration st = 0 then st\<lparr>duration := dur, trimEnd := dur\<rparr> else st)"

text \<open>
  The \<^verbatim>\<open>onChange\<close> handlers of the trim controls; \<open>v\<close> is \<^verbatim>\<open>Number(e.target.value)\<close>.
  The three number inputs (start, end, length), then the two range sliders. A number is
  the real it denotes; \<^verbatim>\<open>Math.min\<close>, \<^verbatim>\<open>Math.max\<close> and the comparisons are exact on numbers.
  The difference \<^verbatim>\<open>trimEnd - 0.1\<close> of the start input and the sum \<^verbatim>\<open>trimStart + newDur\<close> of
  the length input are rounded by the platform: they are the parameters \<open>fsub\<close> and
  \<open>fadd\<close>. The sum \<^verbatim>\<open>trimStart + 0.1\<close> of the end input is written with the addition of the
  reals; it is the platform's sum where \<^verbatim>\<open>trimStart\<close> is 0, the only place where it is
  evaluated below.
\<close>

definition trimStartInput :: "(real \<Rightarrow> real \<Rightarrow> real) \<Rightarrow> real \<Rightarrow> editor \<Rightarrow> editor" where
  "trimStartInput fsub v st =
     (let val = min v (fsub (trimEnd st) 0.1) in
      st\<lparr>trimStart := max 0 val, videoTime := max 0 val\<rparr>)"

definition trimEndInput :: "real \<Rightarrow> editor \<Rightarrow> editor" where
  "trimEndInput v st =
     (let val = max v (trimStart st + 0.1) in
      st\<lparr>trimEnd := min (duration st) val\<rparr>)"

definition trimLengthInput :: "(real \<Rightarrow> real \<Rightarrow> real) \<Rightarrow> real \<Rightarrow> editor \<Rightarrow> editor" where
  "trimLengthInput fadd v st =
     (let newDur = v; newEnd = fadd (trimStart st) newDur in
      if newEnd \<le> duration st then st\<lparr>trimEnd := newEnd\<rparr> else st)"

definition trimStartSlider :: "real \<Rightarrow> editor \<Rightarrow> editor" where
  "trimStartSlider v st = (let val = v in st\<lparr>trimStart := val, videoTime := val\<rparr>)"

definition trimEndSlider :: "real \<Rightarrow> editor \<Rightarrow> editor" where
  "trimEndSlider v st = st\<lparr>trimEnd := max v (trimStart st)\<rparr>"

text \<open>The trim invariant of the edit plan, with the minimal duration of 0.1 s.\<close>

definition trimInvariant :: "editor \<Rightarrow> bool" where
  "trimInvariant st =
     (0 \<le> trimStart st \<and> trimStart st < trimEnd st \<and> trimEnd st \<le> duration st
      \<and> trimEnd st - trimStart st \<ge> 0.1)"

text \<open>
  \<^verbatim>\<open>compatibleVideos\<close>, the values of the selector's options (the disabled placeholder
  with the empty value first), and \<^verbatim>\<open>handleAddToQueue\<close>, with \<open>selectedId\<close> the
  selector's value. \<^verbatim>\<open>if (selectedId)\<close> is true exactly for a non-empty string.
\<close>

definition compatibleVideos :: "GeneratedVideo \<Rightarrow> GeneratedVideo list \<Rightarrow> GeneratedVideo list" where
  "compatibleVideos video allVideos =
     filter (\<lambda>v. id_v v \<noteq> id_v video \<and> aspectRatio v = aspectRatio video) allVideos"

definition selectorValues :: "GeneratedVideo \<Rightarrow> GeneratedVideo list \<Rightarrow> string list" where
  "selectorValues video allVideos = '''' # map id_v (compatibleVideos video allVideos)"

definition handleAddToQueue :: "string \<Rightarrow> editor \<Rightarrow> editor" where
  "handleAddToQueue selectedId st =
     (if selectedId \<noteq> [] then
        st\<lparr>mergeQueue := mergeQueue st @ [selectedId], failedQueueIndices := {}\<rparr>
      else st)"

definition handleRemoveFromQueue :: "nat \<Rightarrow> editor \<Rightarrow> editor" where
  "handleRemoveFromQueue indexToRemove st =
     st\<lparr>mergeQueue := map snd (filter (\<lambda>(index, q). index \<noteq> indexToRemove)
                                   (zip [0..<length (mergeQueue st)] (mergeQueue st))),
        failedQueueIndices := {}, errorMessage := None\<rparr>"

section \<open>Segment player\<close>

text \<open>
  What the platform does during one call of \<^verbatim>\<open>playSegment\<close>: the value of the test
  \<^verbatim>\<open>Math.abs(videoEl.currentTime - start) > 0.1\<close> when the position differs from \<open>start\<close>
  (\<open>seekTest\<close>: the difference is rounded by the platform, so the test is not decided
  here), whether the \<^verbatim>\<open>seeked\<close> event arrives when the player waits for it, how the promise
  of \<^verbatim>\<open>videoEl.play()\<close> settles, and the state of the video element at each successive
  animation-frame callback (\<open>frames\<close>), as far as the run is observed. When the player has
  requested another animation frame and \<open>frames\<close> is exhausted, the segment has not
  resolved: it is \<open>Pending\<close>.
\<close>

record sample =
  currentTime :: real
  paused :: bool
  ended :: bool

record playback =
  seekTest :: bool
  seekedFires :: bool
  play :: "unit settled"
  frames :: "sample list"

text \<open>
  \<^verbatim>\<open>onFrame\<close>. Both reads of \<^verbatim>\<open>videoEl.currentTime\<close> in one callback see the same position.
\<close>

fun onFrame :: "real \<Rightarrow> string \<Rightarrow> real \<Rightarrow> real \<Rightarrow> sample list \<Rightarrow> editor \<Rightarrow> unit outcome \<times> editor" where
  "onFrame end text width height [] st = (Pending, st)"
| "onFrame end text width height (s # rest) st =
     (if currentTime s \<ge> end then
        (Done (), st\<lparr>videoTime := currentTime s, trace := trace st @ [PauseVideo]\<rparr>)
      else
        (let (c, ops) = renderFrame (ctx st) (videoSrc st, currentTime s) text width height;
             st' = st\<lparr>videoTime := currentTime s, ctx := c, trace := trace st @ map Canvas ops\<rparr>
         in if \<not> paused s \<and> \<not> ended s then onFrame end text width height rest st'
            else if currentTime s < end then onFrame end text width height rest st'
            else (Done (), st')))"

definition startPlayback ::
  "real \<Rightarrow> real \<Rightarrow> string \<Rightarrow> real \<Rightarrow> real \<Rightarrow> playback \<Rightarrow> editor \<Rightarrow> unit outcome \<times> editor" where
  "startPlayback start end text width height pb st =
     (let st1 = st\<lparr>videoTime := start\<rparr> in
      case play pb of
        Resolves u \<Rightarrow> onFrame end text width height (frames pb) (st1\<lparr>trace := trace st1 @ [PlayVideo]\<rparr>)
      | Rejects e \<Rightarrow> (Thrown e, st1)
      | NeverSettles \<Rightarrow> (Pending, st1))"

text \<open>
  \<^verbatim>\<open>playSegment\<close>. When the position is \<open>start\<close> itself, the difference is 0 and the seek
  test is false; otherwise its value is the platform's.
\<close>

definition playSegment ::
  "real \<Rightarrow> real \<Rightarrow> string \<Rightarrow> real \<Rightarrow> real \<Rightarrow> playback \<Rightarrow> editor \<Rightarrow> unit outcome \<times> editor" where
  "playSegment start end text width height pb st =
     (if videoTime st \<noteq> start \<and> seekTest pb then
        (let st1 = st\<lparr>videoTime := start\<rparr> in
         if seekedFires pb then startPlayback start end text width height pb st1
         else (Pending, st1))
      else startPlayback start end text width height pb st)"

section \<open>Export procedure\<close>

text \<open>
  The platform as one run of \<^verbatim>\<open>processVideo\<close> meets it. \<open>refsPresent\<close>: both refs are
  set. \<open>audioInitial\<close>: the state of the new audio context, \<open>resume\<close>: how its
  \<^verbatim>\<open>resume()\<close> settles. \<open>canvasContext\<close>: the result of \<^verbatim>\<open>getContext('2d')\<close>. For the
  queue entry at index \<open>i\<close>: \<open>clipFetch i\<close> is how \<^verbatim>\<open>fetch\<close> settles (with the object URL
  created for the blob of an ok response), \<open>clipLoad i\<close> the event that settles the load
  promise, \<open>clipPlayback i\<close> the playback. \<open>recorderData\<close>: the data of the recorder's
  \<^verbatim>\<open>dataavailable\<close> events up to its stop; \<open>recorderEvent\<close>: the event that follows
  \<^verbatim>\<open>recorder.stop()\<close>; \<open>outputUrl\<close>: the object URL created for the final blob.
\<close>

datatype fetch_response = ResponseOk blob string | ResponseNotOk string

datatype load_event = LoadedData real | ErrorEvent | Timeout15s

datatype recorder_event = StopEvent | RecorderError error | NoEvent

record env =
  refsPresent :: bool
  audioInitial :: audio_state
  resume :: "unit settled"
  videoWidth :: int
  videoHeight :: int
  canvasContext :: "canvas_state option"
  hasAudioTrack :: bool
  isTypeSupported :: "string \<Rightarrow> bool"
  mainPlayback :: playback
  clipFetch :: "nat \<Rightarrow> fetch_response settled"
  clipLoad :: "nat \<Rightarrow> load_event"
  clipPlayback :: "nat \<Rightarrow> playback"
  recorderData :: "bytes list"
  recorderEvent :: recorder_event
  outputUrl :: string

text \<open>Sequencing of awaited steps: a throw or a pending promise ends the sequence.\<close>

definition andThen ::
  "'a outcome \<times> editor \<Rightarrow> ('a \<Rightarrow> editor \<Rightarrow> 'b outcome \<times> editor) \<Rightarrow> 'b outcome \<times> editor" where
  "andThen r f =
     (case r of
        (Done x, st) \<Rightarrow> f x st
      | (Thrown e, st) \<Rightarrow> (Thrown e, st)
      | (Pending, st) \<Rightarrow> (Pending, st))"

text \<open>\<^verbatim>\<open>fetchVideoAsBlobUrl(url)\<close>, with \<open>r\<close> how the fetch settles.\<close>

definition fetchVideoAsBlobUrl ::
  "fetch_response settled \<Rightarrow> string \<Rightarrow> editor \<Rightarrow> string outcome \<times> editor" where
  "fetchVideoAsBlobUrl r u st =
     (let st1 = st\<lparr>trace := trace st @ [Fetch u]\<rparr> in
      case r of
        NeverSettles \<Rightarrow> (Pending, st1)
      | Rejects e \<Rightarrow> (Thrown e, st1)
      | Resolves (ResponseNotOk statusText) \<Rightarrow> (Thrown (FetchNotOk statusText), st1)
      | Resolves (ResponseOk b blobUrl) \<Rightarrow>
          (Done blobUrl, st1\<lparr>trace := trace st1 @ [CreateObjectURL b blobUrl]\<rparr>))"

text \<open>\<^verbatim>\<open>cleanupAudio\<close>, and the \<^verbatim>\<open>forEach\<close> that revokes the temporary URLs.\<close>

definition cleanupAudio :: "editor \<Rightarrow> editor" where
  "cleanupAudio st =
     (if audioCtx st \<noteq> Closed then st\<lparr>audioCtx := Closed, trace := trace st @ [CloseAudio]\<rparr>
      else st)"

definition revokeTempMergeBlobs :: "editor \<Rightarrow> editor" where
  "revokeTempMergeBlobs st = st\<lparr>trace := trace st @ map RevokeObjectURL (tempMergeBlobs st)\<rparr>"

definition restoreSource :: "string \<Rightarrow> editor \<Rightarrow> editor" where
  "restoreSource src st = (if src \<noteq> [] then st\<lparr>videoSrc := src, videoTime := 0\<rparr> else st)"

text \<open>The start of the \<^verbatim>\<open>try\<close> block: the audio context is resumed when suspended.\<close>

definition resumeAudio :: "env \<Rightarrow> editor \<Rightarrow> unit outcome \<times> editor" where
  "resumeAudio env st =
     (if audioCtx st = Suspended then
        (case resume env of
           Resolves u \<Rightarrow> (Done (), st\<lparr>audioCtx := Running\<rparr>)
         | Rejects e \<Rightarrow> (Thrown e, st)
         | NeverSettles \<Rightarrow> (Pending, st))
      else (Done (), st))"

text \<open>
  Step 1 of the source: even dimensions, the canvas and its context, and the initial
  \<^verbatim>\<open>drawImage\<close>. It returns \<open>(width, height)\<close>.
\<close>

definition setupCanvas :: "env \<Rightarrow> editor \<Rightarrow> (int \<times> int) outcome \<times> editor" where
  "setupCanvas env st =
     (let width = (if videoWidth env mod 2 = 0 then videoWidth env else videoWidth env - 1);
          height = (if videoHeight env mod 2 = 0 then videoHeight env else videoHeight env - 1)
      in if width \<le> 0 \<or> height \<le> 0 then (Thrown InvalidDimensions, st)
         else (case canvasContext env of
                 None \<Rightarrow> (Thrown NoCanvasContext, st)
               | Some c \<Rightarrow>
                   (Done (width, height),
                    st\<lparr>ctx := c,
                       trace := trace st @
                         [Canvas (DrawImage (videoSrc st, videoTime st) 0 0
                                    (real_of_int width) (real_of_int height))]\<rparr>)))"

text \<open>
  The capture stream, step 2 (audio graph) and step 3 (recorder) up to
  \<^verbatim>\<open>recorder.start(100)\<close>. It returns \<open>mimeType\<close>.
\<close>

definition startRecording :: "env \<Rightarrow> editor \<Rightarrow> string outcome \<times> editor" where
  "startRecording env st =
     (let mimeType = getSupportedMimeType (isTypeSupported env) in
      (Done mimeType,
       st\<lparr>trace := trace st @ [CaptureStream 30, ConnectSource]
                     @ (if hasAudioTrack env then [AddTrack] else [])
                     @ [NewRecorder mimeType, RecorderStart 100]\<rparr>))"

text \<open>
  The recorder's handlers. \<open>chunks\<close> is what \<^verbatim>\<open>ondataavailable\<close> has pushed when the
  recorder stops; \<open>recorderOnStop\<close> is the \<^verbatim>\<open>onstop\<close> handler, whose result settles the
  promise \<^verbatim>\<open>recordingFinished\<close>; \<^verbatim>\<open>new Blob(chunks, ...)\<close> concatenates the chunks.
\<close>

definition chunks :: "env \<Rightarrow> bytes list" where
  "chunks env = filter (\<lambda>d. length d > 0) (recorderData env)"

definition newBlob :: "bytes list \<Rightarrow> string \<Rightarrow> blob" where
  "newBlob parts t = \<lparr>blobBytes = concat parts, blobType = t\<rparr>"

definition recorderOnStop ::
  "bytes list \<Rightarrow> string \<Rightarrow> string \<Rightarrow> editor \<Rightarrow> unit outcome \<times> editor" where
  "recorderOnStop cs mimeType u st =
     (if length cs = 0 then (Thrown EmptyOutput, st)
      else
        (let b = newBlob cs (if mimeType \<noteq> [] then mimeType else ''video/webm'') in
         if length (blobBytes b) < 1000 then (Thrown OutputTooSmall, st)
         else (Done (), st\<lparr>trace := trace st @ [CreateObjectURL b u, OnSave u]\<rparr>)))"

text \<open>Step 6: the settle delay, \<^verbatim>\<open>recorder.stop()\<close> and \<^verbatim>\<open>await recordingFinished\<close>.\<close>

definition finishRecording :: "env \<Rightarrow> string \<Rightarrow> editor \<Rightarrow> unit outcome \<times> editor" where
  "finishRecording env mimeType st =
     (let st1 = st\<lparr>trace := trace st @ [Delay 500, RecorderStop]\<rparr> in
      case recorderEvent env of
        StopEvent \<Rightarrow> recorderOnStop (chunks env) mimeType (outputUrl env) st1
      | RecorderError e \<Rightarrow> (Thrown e, st1)
      | NoEvent \<Rightarrow> (Pending, st1))"

text \<open>
  The body of the \<^verbatim>\<open>try\<close> inside the merge loop for the entry at index \<open>i\<close>, resolved
  to \<open>mergeVideoData\<close>: fetch, load, play.
\<close>

definition loadClip :: "load_event \<Rightarrow> string \<Rightarrow> string \<Rightarrow> editor \<Rightarrow> real outcome \<times> editor" where
  "loadClip ev mergeId mergeBlobUrl st =
     (let st1 = st\<lparr>videoSrc := mergeBlobUrl, videoTime := 0\<rparr> in
      case ev of
        LoadedData d \<Rightarrow> (Done d, st1)
      | ErrorEvent \<Rightarrow> (Thrown (LoadFailed mergeId), st1)
      | Timeout15s \<Rightarrow> (Thrown (LoadTimeout mergeId), st1))"

definition mergeStep ::
  "env \<Rightarrow> real \<Rightarrow> real \<Rightarrow> nat \<Rightarrow> string \<Rightarrow> GeneratedVideo \<Rightarrow> editor \<Rightarrow> unit outcome \<times> editor" where
  "mergeStep env width height i mergeId mergeVideoData st =
     andThen (fetchVideoAsBlobUrl (clipFetch env i) (url mergeVideoData) st) (\<lambda>mergeBlobUrl st1.
       andThen (loadClip (clipLoad env i) mergeId mergeBlobUrl
                  (st1\<lparr>tempMergeBlobs := tempMergeBlobs st1 @ [mergeBlobUrl]\<rparr>)) (\<lambda>dur st2.
         playSegment 0 dur '''' width height (clipPlayback env i) st2))"

text \<open>
  The merge loop over the queue entries with their indices. An entry whose id is not
  found has no \<^verbatim>\<open>else\<close> branch; the \<^verbatim>\<open>catch\<close> marks the index and throws the queue error.
\<close>

fun mergeLoop ::
  "env \<Rightarrow> GeneratedVideo list \<Rightarrow> real \<Rightarrow> real \<Rightarrow> (nat \<times> string) list \<Rightarrow> editor \<Rightarrow> unit outcome \<times> editor" where
  "mergeLoop env allVideos width height [] st = (Done (), st)"
| "mergeLoop env allVideos width height ((i, mergeId) # rest) st =
     (case find (\<lambda>v. id_v v = mergeId) allVideos of
        None \<Rightarrow> mergeLoop env allVideos width height rest st
      | Some mergeVideoData \<Rightarrow>
          (case mergeStep env width height i mergeId mergeVideoData st of
             (Done u, st1) \<Rightarrow> mergeLoop env allVideos width height rest st1
           | (Thrown err, st1) \<Rightarrow>
               (Thrown (QueueItemFailed (i + 1)),
                st1\<lparr>failedQueueIndices := insert i (failedQueueIndices st1)\<rparr>)
           | (Pending, st1) \<Rightarrow> (Pending, st1)))"

text \<open>
  The \<^verbatim>\<open>try\<close> block up to the end of the main segment (steps 1 to 5, part 1); it returns
  the dimensions and the MIME type.
\<close>

definition beforeQueue :: "env \<Rightarrow> editor \<Rightarrow> (real \<times> real \<times> string) outcome \<times> editor" where
  "beforeQueue env st =
     andThen (resumeAudio env st) (\<lambda>u st1.
       andThen (setupCanvas env st1) (\<lambda>(width, height) st2.
         andThen (startRecording env st2) (\<lambda>mimeType st3.
           andThen (playSegment (trimStart st3) (trimEnd st3) (textOverlay st3)
                      (real_of_int width) (real_of_int height) (mainPlayback env)
                      (st3\<lparr>videoTime := trimStart st3\<rparr>)) (\<lambda>u st4.
             (Done (real_of_int width, real_of_int height, mimeType), st4)))))"

definition successCleanup :: "string \<Rightarrow> editor \<Rightarrow> editor" where
  "successCleanup src st =
     restoreSource src (revokeTempMergeBlobs (cleanupAudio
       (st\<lparr>processing := False, trace := trace st @ [DisconnectSource]\<rparr>)))"

definition tryBlock :: "env \<Rightarrow> GeneratedVideo list \<Rightarrow> string \<Rightarrow> editor \<Rightarrow> unit outcome \<times> editor" where
  "tryBlock env allVideos src st =
     andThen (beforeQueue env st) (\<lambda>(width, height, mimeType) st1.
       andThen (mergeLoop env allVideos width height (enumerate 0 (mergeQueue st1)) st1) (\<lambda>u st2.
         andThen (finishRecording env mimeType st2) (\<lambda>u st3.
           (Done (), successCleanup src st3))))"

definition catchBlock :: "error \<Rightarrow> string \<Rightarrow> editor \<Rightarrow> editor" where
  "catchBlock e src st =
     restoreSource src (revokeTempMergeBlobs (cleanupAudio
       (st\<lparr>processing := False, errorMessage := Some e\<rparr>)))"

text \<open>
  \<^verbatim>\<open>processVideo\<close>. It returns, or it never does (\<open>Hung\<close>) when an awaited promise is never
  settled. \<^verbatim>\<open>!localVideoSrc\<close> holds for \<^verbatim>\<open>null\<close> and for the empty string. \<open>beginJob\<close> is
  the state reset before the \<^verbatim>\<open>try\<close> block, with the new audio context and the empty
  \<^verbatim>\<open>tempMergeBlobs\<close>; the trace of the run starts empty.
\<close>

datatype exit = Returned | Hung

definition beginJob :: "env \<Rightarrow> editor \<Rightarrow> editor" where
  "beginJob env st =
     st\<lparr>processing := True, progress := 0, isPlaying := False, errorMessage := None,
        failedQueueIndices := {}, trace := trace st @ [PauseVideo, NewAudioContext],
        audioCtx := audioInitial env, tempMergeBlobs := []\<rparr>"

definition processVideo :: "env \<Rightarrow> GeneratedVideo list \<Rightarrow> editor \<Rightarrow> exit \<times> editor" where
  "processVideo env allVideos st0 =
     (let st = st0\<lparr>trace := []\<rparr> in
      case localVideoSrc st of
        None \<Rightarrow> (Returned, st\<lparr>errorMessage := Some SourceNotReady\<rparr>)
      | Some src \<Rightarrow>
          if src = [] then (Returned, st\<lparr>errorMessage := Some SourceNotReady\<rparr>)
          else if \<not> refsPresent env then (Returned, st)
          else
            (case tryBlock env allVideos src (beginJob env st) of
               (Done u, st2) \<Rightarrow> (Returned, st2)
             | (Thrown e, st2) \<Rightarrow> (Returned, catchBlock e src st2)
             | (Pending, st2) \<Rightarrow> (Hung, st2)))"

section \<open>Vocabulary of the properties\<close>

text \<open>
  The events a segment player can add to the trace, and the relation between the states
  before and after a player step: only the video position, the context's style state and
  the trace change, and the trace grows by player events.
\<close>

fun isPlayEvent :: "event \<Rightarrow> bool" where
  "isPlayEvent (Canvas d) = True"
| "isPlayEvent PauseVideo = True"
| "isPlayEvent PlayVideo = True"
| "isPlayEvent e = False"

definition plays :: "editor \<Rightarrow> editor \<Rightarrow> bool" where
  "plays st st' \<longleftrightarrow>
     (\<exists>vt c ys. st' = st\<lparr>videoTime := vt, ctx := c, trace := trace st @ ys\<rparr>
        \<and> list_all isPlayEvent ys)"

text \<open>
  The player gets to its frame loop: \<^verbatim>\<open>play()\<close> resolves, and the \<^verbatim>\<open>seeked\<close> event arrives
  if the player waits for it.
\<close>

definition playStarts :: "real \<Rightarrow> playback \<Rightarrow> editor \<Rightarrow> bool" where
  "playStarts start pb st \<longleftrightarrow>
     play pb = Resolves () \<and> (videoTime st \<noteq> start \<and> seekTest pb \<longrightarrow> seekedFires pb)"

text \<open>
  A queue entry (index and id) is resolvable when \<^verbatim>\<open>allVideos.find\<close> finds its id.
\<close>

definition resolvable :: "GeneratedVideo list \<Rightarrow> nat \<times> string \<Rightarrow> bool" where
  "resolvable allVideos entry = (find (\<lambda>v. id_v v = snd entry) allVideos \<noteq> None)"

text \<open>
  The queue clip at index \<open>i\<close> goes through: the fetch is answered ok, the element
  answers the load with \<^verbatim>\<open>loadeddata\<close>, \<^verbatim>\<open>play()\<close> resolves and some animation frame sees the
  position at the clip's duration. \<open>clipUrl\<close> is the object URL created for the fetched
  blob, \<open>clipFrames\<close> the frames of the clip that the animation-frame callbacks see before
  its duration is reached, and \<open>entryUrl\<close> the \<^verbatim>\<open>url\<close> of the history entry that a queue
  entry resolves to.
\<close>

definition clipGoes :: "env \<Rightarrow> nat \<Rightarrow> bool" where
  "clipGoes env i =
     (case clipFetch env i of
        Resolves (ResponseOk b u) \<Rightarrow>
          (case clipLoad env i of
             LoadedData d \<Rightarrow>
               play (clipPlayback env i) = Resolves ()
               \<and> list_ex (\<lambda>s. d \<le> currentTime s) (frames (clipPlayback env i))
           | ErrorEvent \<Rightarrow> False
           | Timeout15s \<Rightarrow> False)
      | Resolves (ResponseNotOk statusText) \<Rightarrow> False
      | Rejects e \<Rightarrow> False
      | NeverSettles \<Rightarrow> False)"

definition clipUrl :: "env \<Rightarrow> nat \<Rightarrow> string" where
  "clipUrl env i = (case clipFetch env i of Resolves (ResponseOk b u) \<Rightarrow> u | _ \<Rightarrow> '''')"

definition clipFrames :: "env \<Rightarrow> nat \<Rightarrow> frame list" where
  "clipFrames env i =
     (case clipLoad env i of
        LoadedData d \<Rightarrow>
          map (\<lambda>s. (clipUrl env i, currentTime s))
            (takeWhile (\<lambda>s. currentTime s < d) (frames (clipPlayback env i)))
      | ErrorEvent \<Rightarrow> []
      | Timeout15s \<Rightarrow> [])"

definition entryUrl :: "GeneratedVideo list \<Rightarrow> nat \<times> string \<Rightarrow> string" where
  "entryUrl allVideos entry =
     (case find (\<lambda>v. id_v v = snd entry) allVideos of Some v \<Rightarrow> url v | None \<Rightarrow> '''')"

text \<open>
  What a trace shows of the loads and of the rendering: the URLs fetched, the number of
  segments whose playback was started, and the frames drawn on the canvas, in order.
\<close>

fun fetched :: "event list \<Rightarrow> string list" where
  "fetched [] = []"
| "fetched (Fetch u # es) = u # fetched es"
| "fetched (e # es) = fetched es"

fun segmentsPlayed :: "event list \<Rightarrow> nat" where
  "segmentsPlayed [] = 0"
| "segmentsPlayed (PlayVideo # es) = Suc (segmentsPlayed es)"
| "segmentsPlayed (e # es) = segmentsPlayed es"

fun drawn :: "event list \<Rightarrow> frame list" where
  "drawn [] = []"
| "drawn (Canvas (DrawImage f x y w h) # es) = f # drawn es"
| "drawn (e # es) = drawn es"

text \<open>
  Loading the queue clip at index \<open>i\<close> fails: the fetch rejects or its response is not ok,
  or the element answers the load with an error event or not within the 15 s timeout.
\<close>

definition loadFails :: "env \<Rightarrow> nat \<Rightarrow> bool" where
  "loadFails env i =
     (case clipFetch env i of
        NeverSettles \<Rightarrow> False
      | Rejects e \<Rightarrow> True
      | Resolves (ResponseNotOk statusText) \<Rightarrow> True
      | Resolves (ResponseOk b u) \<Rightarrow>
          (case clipLoad env i of LoadedData d \<Rightarrow> False | ErrorEvent \<Rightarrow> True | Timeout15s \<Rightarrow> True))"

text \<open>
  Classes of events: the two that start the capture (the capture stream and the
  recorder's start); a frame drawn on the canvas; what the set-up and the main segment,
  the merge loop, the finish with the clean-up, and an abort after a failed load can add
  to the trace.
\<close>

fun isCaptureEvent :: "event \<Rightarrow> bool" where
  "isCaptureEvent (CaptureStream n) = True"
| "isCaptureEvent (RecorderStart n) = True"
| "isCaptureEvent e = False"

fun isDrawFrame :: "event \<Rightarrow> bool" where
  "isDrawFrame (Canvas (DrawImage s x y w h)) = True"
| "isDrawFrame e = False"

fun isSetupEvent :: "event \<Rightarrow> bool" where
  "isSetupEvent (CaptureStream n) = True"
| "isSetupEvent ConnectSource = True"
| "isSetupEvent AddTrack = True"
| "isSetupEvent (NewRecorder m) = True"
| "isSetupEvent (RecorderStart n) = True"
| "isSetupEvent e = isPlayEvent e"

fun isMergeEvent :: "event \<Rightarrow> bool" where
  "isMergeEvent (Fetch u) = True"
| "isMergeEvent (CreateObjectURL b u) = True"
| "isMergeEvent e = isPlayEvent e"

fun isTailEvent :: "event \<Rightarrow> bool" where
  "isTailEvent (Delay n) = True"
| "isTailEvent RecorderStop = True"
| "isTailEvent (CreateObjectURL b u) = True"
| "isTailEvent (OnSave u) = True"
| "isTailEvent DisconnectSource = True"
| "isTailEvent CloseAudio = True"
| "isTailEvent e = False"

fun isAbortEvent :: "event \<Rightarrow> bool" where
  "isAbortEvent (CreateObjectURL b u) = True"
| "isAbortEvent CloseAudio = True"
| "isAbortEvent (RevokeObjectURL u) = True"
| "isAbortEvent e = False"

text \<open>
  The object URLs a list of events creates, in order, and the object URLs that are live
  after a trace: created and not revoked since.
\<close>

fun urlsCreated :: "event list \<Rightarrow> string list" where
  "urlsCreated [] = []"
| "urlsCreated (CreateObjectURL b u # es) = u # urlsCreated es"
| "urlsCreated (e # es) = urlsCreated es"



text \<open>
  The states before and after a step of the merge loop: the video element, the context's
  style and the list of temporary URLs change, the trace grows by merge events, and the
  URLs these create are the ones appended to \<^verbatim>\<open>tempMergeBlobs\<close>.
\<close>

definition merges :: "editor \<Rightarrow> editor \<Rightarrow> bool" where
  "merges st st' \<longleftrightarrow>
     (\<exists>vs vt c tmp ys.
        st' = st\<lparr>videoSrc := vs, videoTime := vt, ctx := c,
                 tempMergeBlobs := tempMergeBlobs st @ tmp, trace := trace st @ ys\<rparr>
        \<and> list_all isMergeEvent ys \<and> urlsCreated ys = tmp)"

text \<open>
  A list of set-up events in which no capture starts before a frame is drawn: it starts
  with a drawn frame, or it starts no capture. The states before and after the set-up with
  the main segment: the audio context, the video position and the context's style change,
  and the trace grows by such a list.
\<close>

fun drawnFirst :: "event list \<Rightarrow> bool" where
  "drawnFirst [] = True"
| "drawnFirst (e # es) = (isDrawFrame e \<or> list_all (\<lambda>e. \<not> isCaptureEvent e) (e # es))"

definition prepares :: "editor \<Rightarrow> editor \<Rightarrow> bool" where
  "prepares st st' \<longleftrightarrow>
     st'\<lparr>audioCtx := audioCtx st, videoTime := videoTime st, ctx := ctx st, trace := trace st\<rparr> = st
     \<and> (\<exists>ys. trace st' = trace st @ ys \<and> list_all isSetupEvent ys \<and> drawnFirst ys)"

text \<open>
  What \<^verbatim>\<open>cleanupAudio\<close> adds to the trace, and the shape of the trace of a run that got
  past the early returns: the set-up events \<open>ys\<close>, the merge events \<open>zs\<close>, the events
  \<open>pre\<close> of the finish and of the clean-up before the revocations, and, when the run
  returns, the revocation of every URL the merge loop created.
\<close>

definition closeEvents :: "editor \<Rightarrow> event list" where
  "closeEvents X = (if audioCtx X \<noteq> Closed then [CloseAudio] else [])"

definition runShape :: "env \<Rightarrow> exit \<Rightarrow> editor \<Rightarrow> event list \<Rightarrow> event list \<Rightarrow> event list \<Rightarrow> bool" where
  "runShape env x st' ys zs pre \<longleftrightarrow>
     trace st' = [PauseVideo, NewAudioContext] @ ys @ zs @ pre
                   @ (if x = Returned then map RevokeObjectURL (urlsCreated zs) else [])
     \<and> list_all isSetupEvent ys \<and> drawnFirst ys \<and> list_all isMergeEvent zs
     \<and> list_all isTailEvent pre \<and> set (urlsCreated pre) \<subseteq> {outputUrl env}
     \<and> (errorMessage st' \<noteq> None \<longrightarrow> urlsCreated pre = [])
     \<and> tempMergeBlobs st' = urlsCreated zs
     \<and> (x = Returned \<longrightarrow> audioCtx st' = Closed)"

section \<open>Concrete inputs\<close>

text \<open>
  A context in its default style; history entries; a sample of a playing and of a stopped
  element; a playback that starts and shows the given samples.
\<close>

definition defaultContext :: canvas_state where
  "defaultContext = \<lparr>font = FontCss ''10px sans-serif'', textAlign = ''start'',
     textBaseline = ''alphabetic'', lineWidth = 1, strokeStyle = ''#000000'',
     lineJoin = ''miter'', lineCap = ''butt'', shadowColor = ''rgba(0, 0, 0, 0)'',
     shadowBlur = 0, shadowOffsetX = 0, shadowOffsetY = 0, fillStyle = ''#000000''\<rparr>"

definition mkVideo :: "string \<Rightarrow> string \<Rightarrow> string \<Rightarrow> GeneratedVideo" where
  "mkVideo i u a = \<lparr>id_v = i, url = u, prompt = ''a prompt'', createdAt = 0,
     model = ''veo'', aspectRatio = a\<rparr>"

definition history :: "GeneratedVideo list" where
  "history = [mkVideo ''1'' ''https://v/1'' ''16:9'', mkVideo ''2'' ''https://v/2'' ''9:16'',
              mkVideo ''3'' ''https://v/3'' ''16:9'']"

definition playing :: "real \<Rightarrow> sample" where
  "playing t = \<lparr>currentTime = t, paused = False, ended = False\<rparr>"

definition stopped :: "real \<Rightarrow> sample" where
  "stopped t = \<lparr>currentTime = t, paused = True, ended = True\<rparr>"

definition playbackOf :: "sample list \<Rightarrow> playback" where
  "playbackOf fs = \<lparr>seekTest = True, seekedFires = True, play = Resolves (), frames = fs\<rparr>"

text \<open>The editor after the metadata of a 10 s clip has loaded.\<close>

definition loadedEditor :: editor where
  "loadedEditor = handleLoadedMetadata 10 (initialEditor ''blob:main'' defaultContext)"

text \<open>
  A platform on which every step succeeds: the queue clips are fetched, load with a
  duration of 3 s and play to their end, and the recorder delivers 1200 bytes in two
  non-empty chunks. The plan trims the main clip to [2, 6], captions it, and queues the
  clips ''3'', ''gone'' (not in the history) and ''1''.
\<close>

definition clipBlob :: blob where
  "clipBlob = \<lparr>blobBytes = [1, 2, 3], blobType = ''video/mp4''\<rparr>"

definition goodEnv :: env where
  "goodEnv = \<lparr>refsPresent = True, audioInitial = Suspended, resume = Resolves (),
     videoWidth = 641, videoHeight = 360, canvasContext = Some defaultContext,
     hasAudioTrack = True, isTypeSupported = (\<lambda>t. t = ''video/webm''),
     mainPlayback = playbackOf [playing 2, playing 6],
     clipFetch = (\<lambda>i. Resolves (ResponseOk clipBlob (if i = 0 then ''blob:clip0'' else ''blob:clip2''))),
     clipLoad = (\<lambda>i. LoadedData 3),
     clipPlayback = (\<lambda>i. playbackOf [playing 0, playing 3]),
     recorderData = [replicate 600 0, [], replicate 600 0],
     recorderEvent = StopEvent, outputUrl = ''blob:output''\<rparr>"

definition plan :: editor where
  "plan = loadedEditor\<lparr>trimStart := 2, trimEnd := 6, textOverlay := ''HI'',
     mergeQueue := [''3'', ''gone'', ''1'']\<rparr>"

text \<open>
  The same plan with an empty queue; and the platform of \<open>goodEnv\<close> except that the fetch
  of the queue entry at index 2 is answered 404.
\<close>

definition plainPlan :: editor where
  "plainPlan = plan\<lparr>mergeQueue := []\<rparr>"

definition failEnv :: env where
  "failEnv = goodEnv\<lparr>clipFetch :=
     (\<lambda>i. if i = 2 then Resolves (ResponseNotOk ''Not Found'') else clipFetch goodEnv i)\<rparr>"





section \<open>Properties of the encoder format selection\<close>

lemma firstSupported_nth:
  "i < length ts \<Longrightarrow> cap (ts ! i) \<Longrightarrow> \<forall>j<i. \<not> cap (ts ! j) \<Longrightarrow> firstSupported cap ts = ts ! i"
proof (induction ts arbitrary: i)
  case Nil
  then show ?case by simp
next
  case (Cons t ts)
  show ?case
  proof (cases i)
    case 0
    with Cons.prems show ?thesis by simp
  next
    case (Suc k)
    from Cons.prems Suc have "\<not> cap t" by auto
    moreover have "firstSupported cap ts = ts ! k"
      using Cons.prems Suc by (intro Cons.IH) auto
    ultimately show ?thesis using Suc by simp
  qed
qed

lemma firstSupported_none: "\<forall>t\<in>set ts. \<not> cap t \<Longrightarrow> firstSupported cap ts = ''''"
  by (induction ts) simp_all

lemma firstSupported_cong:
  "\<forall>t\<in>set ts. cap t = cap' t \<Longrightarrow> firstSupported cap ts = firstSupported cap' ts"
  by (induction ts) simp_all

text \<open>
  C8. \<^verbatim>\<open>getSupportedMimeType\<close> is a function of the capability predicate: it tries
  vp9, vp8, webm, mp4 in this order and returns the first supported one, that is the entry
  at the least supported index of the list; it returns the empty string when no entry is
  supported; and two predicates that agree on the list give the same type.
\<close>

theorem getSupportedMimeType_first_supported:
  "getSupportedMimeType cap =
     (if cap ''video/webm;codecs=vp9'' then ''video/webm;codecs=vp9''
      else if cap ''video/webm;codecs=vp8'' then ''video/webm;codecs=vp8''
      else if cap ''video/webm'' then ''video/webm''
      else if cap ''video/mp4'' then ''video/mp4''
      else '''')
   \<and> (\<forall>i<length types. cap (types ! i) \<and> (\<forall>j<i. \<not> cap (types ! j))
          \<longrightarrow> getSupportedMimeType cap = types ! i)
   \<and> ((\<forall>t\<in>set types. \<not> cap t) \<longrightarrow> getSupportedMimeType cap = '''')
   \<and> ((\<forall>t\<in>set types. cap t = cap' t)
          \<longrightarrow> getSupportedMimeType cap = getSupportedMimeType cap')"
  unfolding getSupportedMimeType_def
  using firstSupported_nth [of _ types cap] firstSupported_none [of types cap]
    firstSupported_cong [of types cap cap']
  by (simp add: types_def)

theorem getSupportedMimeType_witness:
  "list_all (\<lambda>t. (t = ''video/webm'' \<or> t = ''video/mp4'') = (length t \<le> 10)) types
   \<and> 2 < length types \<and> types ! 2 = ''video/webm''
   \<and> getSupportedMimeType (\<lambda>t. t = ''video/webm'' \<or> t = ''video/mp4'') = ''video/webm''
   \<and> getSupportedMimeType (\<lambda>t. length t \<le> 10) = ''video/webm''"
proof -
  let ?cap = "\<lambda>t. t = ''video/webm'' \<or> t = ''video/mp4''"
  let ?cap' = "\<lambda>t::string. length t \<le> 10"
  note inst = getSupportedMimeType_first_supported [of ?cap ?cap']
  have agree: "\<forall>t\<in>set types. ?cap t = ?cap' t"
    by (simp add: types_def)
  have idx: "2 < length types" "types ! 2 = ''video/webm''"
    by (simp_all add: types_def)
  have first: "?cap (types ! 2) \<and> (\<forall>j<2. \<not> ?cap (types ! j))"
    by (simp add: types_def less_Suc_eq numeral_2_eq_2)
  from inst idx(1) first have r: "getSupportedMimeType ?cap = types ! 2"
    by blast
  from inst agree have "getSupportedMimeType ?cap = getSupportedMimeType ?cap'"
    by blast
  with r idx agree show ?thesis by (simp add: list_all_iff)
qed

section \<open>Properties of the frame compositor\<close>

text \<open>
  C9. With the empty overlay text, \<^verbatim>\<open>renderFrame\<close> issues exactly one drawing command, the
  scaled draw of the source at the target dimensions, issues no stroke or fill text
  command, and leaves the context's style (shadow included) as it was: the canvas holds
  what the undecorated draw puts there.
\<close>

theorem renderFrame_empty_text:
  "renderFrame c source '''' width height = (c, [DrawImage source 0 0 width height])
   \<and> filter isTextOp (snd (renderFrame c source '''' width height)) = []"
  by (simp add: renderFrame_def)

theorem renderFrame_empty_text_witness:
  "renderFrame defaultContext (''blob:main'', 2 :: real) '''' 640 360 =
     (defaultContext, [DrawImage (''blob:main'', 2) 0 0 640 360])"
  using renderFrame_empty_text [of defaultContext "(''blob:main'', 2 :: real)" 640 360]
  by simp

section \<open>Properties of the editor controls\<close>

lemma find_by_id:
  "w \<in> set vs \<Longrightarrow> distinct (map id_v vs) \<Longrightarrow> find (\<lambda>v. id_v v = id_v w) vs = Some w"
  by (induction vs) (auto simp: image_iff)

text \<open>
  C10. The candidates offered are exactly the history videos whose id differs from the
  main video's and whose aspect ratio equals the main video's. Every id that
  \<^verbatim>\<open>handleAddToQueue\<close> adds to the queue from a value of the selector differs from the main
  video's id and is the id of a history video with the main video's aspect ratio; when
  the ids of the history are distinct, that video is the one the id resolves to.
\<close>

theorem compatibleVideos_exact:
  "set (compatibleVideos video allVideos) =
     {v \<in> set allVideos. id_v v \<noteq> id_v video \<and> aspectRatio v = aspectRatio video}
   \<and> (\<forall>selectedId \<in> set (selectorValues video allVideos).
        \<forall>q \<in> set (mergeQueue (handleAddToQueue selectedId st)) - set (mergeQueue st).
          q \<noteq> id_v video
          \<and> (\<exists>v \<in> set allVideos. id_v v = q \<and> aspectRatio v = aspectRatio video)
          \<and> (distinct (map id_v allVideos) \<longrightarrow>
               (\<exists>v. find (\<lambda>v. id_v v = q) allVideos = Some v
                    \<and> aspectRatio v = aspectRatio video)))"
  by (auto simp: compatibleVideos_def selectorValues_def handleAddToQueue_def find_by_id)

theorem compatibleVideos_witness:
  "compatibleVideos (mkVideo ''1'' ''https://v/1'' ''16:9'') history
     = [mkVideo ''3'' ''https://v/3'' ''16:9'']
   \<and> ''3'' \<in> set (selectorValues (mkVideo ''1'' ''https://v/1'' ''16:9'') history)
   \<and> ''3'' \<in> set (mergeQueue (handleAddToQueue ''3'' loadedEditor)) - set (mergeQueue loadedEditor)
   \<and> distinct (map id_v history)
   \<and> ''3'' \<noteq> id_v (mkVideo ''1'' ''https://v/1'' ''16:9'')
   \<and> (\<exists>v. find (\<lambda>v. id_v v = ''3'') history = Some v \<and> aspectRatio v = ''16:9'')"
proof -
  let ?main = "mkVideo ''1'' ''https://v/1'' ''16:9''"
  have sel: "''3'' \<in> set (selectorValues ?main history)"
    by (simp add: selectorValues_def compatibleVideos_def history_def mkVideo_def)
  have added: "''3'' \<in> set (mergeQueue (handleAddToQueue ''3'' loadedEditor)) - set (mergeQueue loadedEditor)"
    by (simp add: handleAddToQueue_def loadedEditor_def handleLoadedMetadata_def initialEditor_def)
  have dist: "distinct (map id_v history)"
    by (simp add: history_def mkVideo_def)
  have cands: "compatibleVideos ?main history = [mkVideo ''3'' ''https://v/3'' ''16:9'']"
    by (simp add: compatibleVideos_def history_def mkVideo_def)
  from compatibleVideos_exact [of ?main history loadedEditor] sel added dist
  have "''3'' \<noteq> id_v ?main
        \<and> (\<exists>v. find (\<lambda>v. id_v v = ''3'') history = Some v \<and> aspectRatio v = aspectRatio ?main)"
    by blast
  with sel added dist cands show ?thesis
    by (simp add: mkVideo_def)
qed

text \<open>
  C5. After the metadata of a 10 s clip has loaded, the trim is [0, 10] and the invariant
  holds. Moving the end slider to its minimum 0 sets \<^verbatim>\<open>trimEnd\<close> to
  \<^verbatim>\<open>Math.max(0, trimStart)\<close> = 0 = \<^verbatim>\<open>trimStart\<close>: a zero-length segment, the invariant is
  broken. Moving the start slider to its maximum 10 sets \<^verbatim>\<open>trimStart\<close> to 10 =
  \<^verbatim>\<open>trimEnd\<close> and breaks it too. The end number input given the value 0 keeps the 0.1 s
  gap. The sliders' computations are on the numbers 0 and 10 only, which JavaScript
  represents exactly.
\<close>

theorem trimEndSlider_breaks_invariant:
  "trimInvariant loadedEditor
   \<and> trimEnd (trimEndSlider 0 loadedEditor) = trimStart (trimEndSlider 0 loadedEditor)
   \<and> \<not> trimInvariant (trimEndSlider 0 loadedEditor)
   \<and> \<not> trimInvariant (trimStartSlider 10 loadedEditor)
   \<and> trimInvariant (trimEndInput 0 loadedEditor)"
  by (simp add: trimInvariant_def trimEndSlider_def trimStartSlider_def trimEndInput_def
      loadedEditor_def handleLoadedMetadata_def initialEditor_def)

section \<open>Properties of the sink's finish\<close>










section \<open>Properties of the segment player\<close>

lemma plays_refl: "plays st st"
  unfolding plays_def
  by (rule exI [of _ "videoTime st"], rule exI [of _ "ctx st"], rule exI [of _ "[]"]) simp

lemma plays_trans: "plays a b \<Longrightarrow> plays b c \<Longrightarrow> plays a c"
  unfolding plays_def
  by (elim exE conjE, hypsubst_thin) (simp, metis list_all_append)

lemma renderFrame_ops: "list_all isPlayEvent (map Canvas (snd (renderFrame c src t w h)))"
  by (simp add: renderFrame_def Let_def)

lemma onFrame_plays: "plays st (snd (onFrame e t w h fs st))"
proof (induction fs arbitrary: st)
  case Nil
  show ?case by (simp add: plays_refl)
next
  case (Cons s fs)
  obtain c ops where r: "renderFrame (ctx st) (videoSrc st, currentTime s) t w h = (c, ops)"
    by (cases "renderFrame (ctx st) (videoSrc st, currentTime s) t w h")
  let ?st' = "st\<lparr>videoTime := currentTime s, ctx := c, trace := trace st @ map Canvas ops\<rparr>"
  have ops: "list_all isPlayEvent (map Canvas ops)"
    using renderFrame_ops [of "ctx st" "(videoSrc st, currentTime s)" t w h] r by simp
  have step: "plays st ?st'"
    unfolding plays_def using ops by blast
  have stop: "plays st (st\<lparr>videoTime := currentTime s, trace := trace st @ [PauseVideo]\<rparr>)"
    unfolding plays_def
    by (rule exI [of _ "currentTime s"], rule exI [of _ "ctx st"], rule exI [of _ "[PauseVideo]"]) simp
  from Cons.IH [of ?st'] step have "plays st (snd (onFrame e t w h fs ?st'))"
    by (rule plays_trans [rotated])
  with stop step show ?case
    by (simp add: r Let_def)
qed

lemma onFrame_outcome:
  "fst (onFrame e t w h fs st) = (if \<exists>s\<in>set fs. e \<le> currentTime s then Done () else Pending)"
  by (induction fs arbitrary: st) (auto simp: Let_def split: prod.splits)

lemma startPlayback_plays: "plays st (snd (startPlayback start e t w h pb st))"
proof -
  let ?st1 = "st\<lparr>videoTime := start\<rparr>"
  have a: "plays st ?st1"
    unfolding plays_def
    by (rule exI [of _ start], rule exI [of _ "ctx st"], rule exI [of _ "[]"]) simp
  have b: "plays st (?st1\<lparr>trace := trace ?st1 @ [PlayVideo]\<rparr>)"
    unfolding plays_def
    by (rule exI [of _ start], rule exI [of _ "ctx st"], rule exI [of _ "[PlayVideo]"]) simp
  have c: "plays st (snd (onFrame e t w h (frames pb) (?st1\<lparr>trace := trace ?st1 @ [PlayVideo]\<rparr>)))"
    using b onFrame_plays by (rule plays_trans)
  show ?thesis
    using a c by (simp add: startPlayback_def Let_def split: settled.splits)
qed

lemma playSegment_plays: "plays st (snd (playSegment start e t w h pb st))"
proof -
  let ?st1 = "st\<lparr>videoTime := start\<rparr>"
  have a: "plays st ?st1"
    unfolding plays_def
    by (rule exI [of _ start], rule exI [of _ "ctx st"], rule exI [of _ "[]"]) simp
  have b: "plays st (snd (startPlayback start e t w h pb ?st1))"
    using a startPlayback_plays by (rule plays_trans)
  show ?thesis
    using a b startPlayback_plays [of st start e t w h pb]
    by (simp add: playSegment_def Let_def)
qed

lemma playSegment_outcome:
  "playStarts start pb st \<Longrightarrow>
   fst (playSegment start e t w h pb st) =
     (if \<exists>s\<in>set (frames pb). e \<le> currentTime s then Done () else Pending)"
  by (simp add: playStarts_def playSegment_def startPlayback_def Let_def onFrame_outcome)




text \<open>
  A defect of the code beside C4: the fallback branch of \<^verbatim>\<open>onFrame\<close> has a \<^verbatim>\<open>resolve()\<close> for an
  element that has stopped, but under the negation of the test \<^verbatim>\<open>currentTime < end\<close> that the
  callback has just found true, so it is never reached. An element that has ended a
  little before \<open>end\<close> is polled like a paused one, and the segment stays pending after any
  number of frames.
\<close>

lemma playSegment_ended_short_pending:
  "fst (playSegment 4 6 [] 640 360
          (playbackOf ([playing 4, playing 5] @ replicate n (stopped 5.97)))
          loadedEditor) = Pending"
proof -
  have "playStarts 4 (playbackOf ([playing 4, playing 5] @ replicate n (stopped 5.97))) loadedEditor"
    by (simp add: playStarts_def playbackOf_def)
  then show ?thesis
    by (simp add: playSegment_outcome playbackOf_def playing_def stopped_def)
qed

section \<open>Properties of the export procedure\<close>

lemma mergeLoop_filter:
  "mergeLoop env allVideos w h (filter (resolvable allVideos) q) st = mergeLoop env allVideos w h q st"
proof (induction q arbitrary: st)
  case Nil
  show ?case by simp
next
  case (Cons entry q)
  obtain i mergeId where entry: "entry = (i, mergeId)" by (cases entry)
  show ?case
  proof (cases "find (\<lambda>v. id_v v = mergeId) allVideos")
    case None
    then show ?thesis using Cons.IH by (simp add: entry resolvable_def)
  next
    case (Some v)
    then show ?thesis using Cons.IH
      by (simp add: entry resolvable_def split: prod.splits outcome.splits)
  qed
qed

lemma urlsCreated_append: "urlsCreated (xs @ ys) = urlsCreated xs @ urlsCreated ys"
  by (induction xs rule: urlsCreated.induct) simp_all

lemma play_events:
  "list_all isPlayEvent ys \<Longrightarrow> list_all isMergeEvent ys \<and> urlsCreated ys = []"
proof (induction ys)
  case Nil
  show ?case by simp
next
  case (Cons e ys)
  then show ?case by (cases e) simp_all
qed

lemma mergesI:
  "st' = st\<lparr>videoSrc := vs, videoTime := vt, ctx := c,
             tempMergeBlobs := tempMergeBlobs st @ tmp, trace := trace st @ ys\<rparr>
   \<Longrightarrow> list_all isMergeEvent ys \<Longrightarrow> urlsCreated ys = tmp \<Longrightarrow> merges st st'"
  unfolding merges_def by blast

lemma merges_refl: "merges st st"
  by (rule mergesI [where vs = "videoSrc st" and vt = "videoTime st" and c = "ctx st" and tmp = "[]" and ys = "[]"]) simp_all

lemma plays_merges: "plays st st' \<Longrightarrow> merges st st'"
proof -
  assume "plays st st'"
  then obtain vt c ys where
    eq: "st' = st\<lparr>videoTime := vt, ctx := c, trace := trace st @ ys\<rparr>" and
    ev: "list_all isPlayEvent ys"
    unfolding plays_def by blast
  show ?thesis
    by (rule mergesI [where vs = "videoSrc st" and vt = vt and c = c and tmp = "[]" and ys = ys]) (use eq ev play_events in simp_all)
qed

lemma merges_trans:
  assumes "merges st1 st2" and "merges st2 st3"
  shows "merges st1 st3"
proof -
  from assms(1) obtain vs vt c tmp ys where
    a: "st2 = st1\<lparr>videoSrc := vs, videoTime := vt, ctx := c,
                  tempMergeBlobs := tempMergeBlobs st1 @ tmp, trace := trace st1 @ ys\<rparr>"
       "list_all isMergeEvent ys" "urlsCreated ys = tmp"
    unfolding merges_def by blast
  from assms(2) obtain vs' vt' c' tmp' ys' where
    b: "st3 = st2\<lparr>videoSrc := vs', videoTime := vt', ctx := c',
                  tempMergeBlobs := tempMergeBlobs st2 @ tmp', trace := trace st2 @ ys'\<rparr>"
       "list_all isMergeEvent ys'" "urlsCreated ys' = tmp'"
    unfolding merges_def by blast
  show ?thesis
    by (rule mergesI [where vs = vs' and vt = vt' and c = c' and tmp = "tmp @ tmp'" and ys = "ys @ ys'"])
       (use a b in \<open>simp_all add: urlsCreated_append\<close>)
qed

lemma mergeStep_merges: "merges st (snd (mergeStep env w h i mergeId v st))"
proof -
  let ?f = "st\<lparr>trace := trace st @ [Fetch (url v)]\<rparr>"
  have fetchOnly: "merges st ?f"
    by (rule mergesI [where vs = "videoSrc st" and vt = "videoTime st" and c = "ctx st" and tmp = "[]" and ys = "[Fetch (url v)]"]) simp_all
  have loaded: "merges st (st\<lparr>trace := trace st @ [Fetch (url v), CreateObjectURL b bu],
                  tempMergeBlobs := tempMergeBlobs st @ [bu],
                  videoSrc := bu, videoTime := 0\<rparr>)" for b bu
    by (rule mergesI [where vs = bu and vt = 0 and c = "ctx st" and tmp = "[bu]" and ys = "[Fetch (url v), CreateObjectURL b bu]"]) simp_all
  have played: "merges st (snd (playSegment 0 d [] w h pb
                  (st\<lparr>trace := trace st @ [Fetch (url v), CreateObjectURL b bu],
                  tempMergeBlobs := tempMergeBlobs st @ [bu],
                  videoSrc := bu, videoTime := 0\<rparr>)))" for b bu d pb
    using loaded plays_merges [OF playSegment_plays] by (rule merges_trans)
  show ?thesis
    using fetchOnly loaded played
    by (simp add: mergeStep_def andThen_def fetchVideoAsBlobUrl_def loadClip_def Let_def
        split: settled.splits fetch_response.splits load_event.splits prod.splits outcome.splits)
qed

lemma merges_fields:
  assumes "merges a b"
  shows "\<exists>zs. trace b = trace a @ zs \<and> list_all isMergeEvent zs
           \<and> tempMergeBlobs b = tempMergeBlobs a @ urlsCreated zs"
    and "failedQueueIndices b = failedQueueIndices a"
    and "errorMessage b = errorMessage a"
    and "mergeQueue b = mergeQueue a"
  using assms unfolding merges_def by auto

lemma mergeLoop_merges:
  "mergeLoop env allVideos w h q st = (r, st') \<Longrightarrow>
   merges st (st'\<lparr>failedQueueIndices := failedQueueIndices st\<rparr>)
   \<and> (r = Done () \<longrightarrow> failedQueueIndices st' = failedQueueIndices st)"
proof (induction q arbitrary: st)
  case Nil
  then show ?case using merges_refl [of st] by auto
next
  case (Cons entry q)
  obtain i mergeId where entry: "entry = (i, mergeId)" by (cases entry)
  show ?case
  proof (cases "find (\<lambda>v. id_v v = mergeId) allVideos")
    case None
    with Cons.prems entry have "mergeLoop env allVideos w h q st = (r, st')" by simp
    then show ?thesis by (rule Cons.IH)
  next
    case (Some v)
    obtain r1 st1 where step: "mergeStep env w h i mergeId v st = (r1, st1)"
      by (cases "mergeStep env w h i mergeId v st")
    have m1: "merges st st1"
      using mergeStep_merges [of st env w h i mergeId v] step by simp
    have fq: "failedQueueIndices st1 = failedQueueIndices st"
      using m1 by (rule merges_fields)
    have keep: "st1\<lparr>failedQueueIndices := failedQueueIndices st\<rparr> = st1"
      using fq by simp
    show ?thesis
    proof (cases r1)
      case (Done u)
      with Cons.prems entry Some step have "mergeLoop env allVideos w h q st1 = (r, st')"
        by simp
      from Cons.IH [OF this] fq m1 show ?thesis
        by (auto intro: merges_trans)
    next
      case (Thrown err)
      with Cons.prems entry Some step
      have "r = Thrown (QueueItemFailed (i + 1))"
        "st' = st1\<lparr>failedQueueIndices := insert i (failedQueueIndices st1)\<rparr>"
        by simp_all
      with m1 keep show ?thesis by simp
    next
      case Pending
      with Cons.prems entry Some step have "r = Pending" "st' = st1" by simp_all
      with m1 keep show ?thesis by simp
    qed
  qed
qed

lemma mergeLoop_append:
  "mergeLoop env allVideos w h (xs @ ys) st =
     (case mergeLoop env allVideos w h xs st of
        (Done u, st1) \<Rightarrow> mergeLoop env allVideos w h ys st1
      | (Thrown e, st1) \<Rightarrow> (Thrown e, st1)
      | (Pending, st1) \<Rightarrow> (Pending, st1))"
proof (induction xs arbitrary: st)
  case Nil
  show ?case by simp
next
  case (Cons entry xs)
  obtain i mergeId where entry: "entry = (i, mergeId)" by (cases entry)
  show ?case
    using Cons.IH by (simp add: entry split: option.splits prod.splits outcome.splits)
qed

lemma play_events_setup:
  "list_all isPlayEvent ys \<Longrightarrow> list_all isSetupEvent ys \<and> list_all (\<lambda>e. \<not> isCaptureEvent e) ys"
proof (induction ys)
  case Nil
  show ?case by simp
next
  case (Cons e ys)
  then show ?case by (cases e) simp_all
qed

lemma drawnFirst_append:
  "drawnFirst xs \<Longrightarrow> list_all (\<lambda>e. \<not> isCaptureEvent e) ys \<Longrightarrow> drawnFirst (xs @ ys)"
proof (cases xs)
  case Nil
  assume "list_all (\<lambda>e. \<not> isCaptureEvent e) ys"
  with Nil show ?thesis by (cases ys) simp_all
next
  case (Cons x xs')
  assume "drawnFirst xs" "list_all (\<lambda>e. \<not> isCaptureEvent e) ys"
  with Cons show ?thesis by auto
qed

lemma prepares_plays:
  assumes "prepares st st1" and "plays st1 st2"
  shows "prepares st st2"
proof -
  from assms(2) obtain vt c ps where
    eq: "st2 = st1\<lparr>videoTime := vt, ctx := c, trace := trace st1 @ ps\<rparr>" and
    ev: "list_all isPlayEvent ps"
    unfolding plays_def by blast
  from assms(1) obtain ys where
    r: "st1\<lparr>audioCtx := audioCtx st, videoTime := videoTime st, ctx := ctx st, trace := trace st\<rparr> = st"
    and ys: "trace st1 = trace st @ ys" "list_all isSetupEvent ys" "drawnFirst ys"
    unfolding prepares_def by blast
  have "st2\<lparr>audioCtx := audioCtx st, videoTime := videoTime st, ctx := ctx st, trace := trace st\<rparr> = st"
    using r by (simp add: eq)
  moreover have "trace st2 = trace st @ (ys @ ps)"
    using ys by (simp add: eq)
  moreover have "list_all isSetupEvent (ys @ ps)" "drawnFirst (ys @ ps)"
    using ys ev play_events_setup [of ps] by (simp_all add: drawnFirst_append)
  ultimately show ?thesis
    unfolding prepares_def by blast
qed

lemma preparesI:
  "st'\<lparr>audioCtx := audioCtx st, videoTime := videoTime st, ctx := ctx st, trace := trace st\<rparr> = st
   \<Longrightarrow> trace st' = trace st @ ys \<Longrightarrow> list_all isSetupEvent ys \<Longrightarrow> drawnFirst ys
   \<Longrightarrow> prepares st st'"
  unfolding prepares_def by blast

lemma beforeQueue_prepares: "prepares st (snd (beforeQueue env st))"
proof -
  obtain r1 st1 where a: "resumeAudio env st = (r1, st1)"
    by (cases "resumeAudio env st")
  have st1: "st1 = st \<or> st1 = st\<lparr>audioCtx := Running\<rparr>"
    using a by (auto simp: resumeAudio_def split: if_splits settled.splits)
  have p1: "prepares st st1"
    using st1 by (auto intro!: preparesI [where ys = "[]"])
  show ?thesis
  proof (cases r1)
    case (Thrown e)
    with a p1 show ?thesis by (simp add: beforeQueue_def andThen_def)
  next
    case Pending
    with a p1 show ?thesis by (simp add: beforeQueue_def andThen_def)
  next
    case (Done u)
    obtain r2 st2 where b: "setupCanvas env st1 = (r2, st2)"
      by (cases "setupCanvas env st1")
    show ?thesis
    proof (cases r2)
      case (Thrown e)
      with b have "st2 = st1"
        by (auto simp: setupCanvas_def Let_def split: if_splits option.splits)
      with a b Done Thrown p1 show ?thesis by (simp add: beforeQueue_def andThen_def)
    next
      case Pending
      with b have "st2 = st1"
        by (auto simp: setupCanvas_def Let_def split: if_splits option.splits)
      with a b Done Pending p1 show ?thesis by (simp add: beforeQueue_def andThen_def)
    next
      case r2: (Done dims)
      obtain width height where dims: "dims = (width, height)" by (cases dims)
      from b r2 obtain c where st2: "st2 = st1\<lparr>ctx := c, trace := trace st1 @
          [Canvas (DrawImage (videoSrc st1, videoTime st1) 0 0 (real_of_int width) (real_of_int height))]\<rparr>"
        by (auto simp: setupCanvas_def Let_def dims split: if_splits option.splits)
      let ?d = "Canvas (DrawImage (videoSrc st1, videoTime st1) 0 0 (real_of_int width) (real_of_int height))"
      let ?caps = "[CaptureStream 30, ConnectSource] @ (if hasAudioTrack env then [AddTrack] else [])
                    @ [NewRecorder (getSupportedMimeType (isTypeSupported env)), RecorderStart 100]"
      let ?st3 = "st2\<lparr>trace := trace st2 @ ?caps\<rparr>"
      have c: "startRecording env st2 = (Done (getSupportedMimeType (isTypeSupported env)), ?st3)"
        by (simp add: startRecording_def Let_def)
      let ?st3' = "?st3\<lparr>videoTime := trimStart ?st3\<rparr>"
      have p3: "prepares st ?st3'"
        using st1 by (auto intro!: preparesI [where ys = "?d # ?caps"] simp: st2)
      have p4: "prepares st (snd (playSegment (trimStart ?st3) (trimEnd ?st3) (textOverlay ?st3)
                  (real_of_int width) (real_of_int height) (mainPlayback env) ?st3'))"
        using p3 playSegment_plays by (rule prepares_plays)
      have "snd (beforeQueue env st) = snd (playSegment (trimStart ?st3) (trimEnd ?st3) (textOverlay ?st3)
                  (real_of_int width) (real_of_int height) (mainPlayback env) ?st3')"
        using a Done b r2 dims c
        by (simp add: beforeQueue_def andThen_def split: prod.splits outcome.splits)
      with p4 show ?thesis by simp
    qed
  qed
qed

lemma finishRecording_shape:
  assumes "finishRecording env m X = (r, X')"
  shows "\<exists>fs. X' = X\<lparr>trace := trace X @ fs\<rparr> \<and> list_all isTailEvent fs
           \<and> set (urlsCreated fs) \<subseteq> {outputUrl env} \<and> (r \<noteq> Done () \<longrightarrow> urlsCreated fs = [])"
proof -
  have "(X' = X\<lparr>trace := trace X @ [Delay 500, RecorderStop]\<rparr> \<and> r \<noteq> Done ())
      \<or> (\<exists>b. X' = X\<lparr>trace := trace X @ [Delay 500, RecorderStop, CreateObjectURL b (outputUrl env),
                                            OnSave (outputUrl env)]\<rparr> \<and> r = Done ())"
    using assms
    by (auto simp: finishRecording_def recorderOnStop_def Let_def
        split: recorder_event.splits if_splits)
  then show ?thesis
  proof (elim disjE conjE exE)
    assume "X' = X\<lparr>trace := trace X @ [Delay 500, RecorderStop]\<rparr>" "r \<noteq> Done ()"
    then show ?thesis
      by (intro exI [of _ "[Delay 500, RecorderStop]"]) simp
  next
    fix b
    assume "X' = X\<lparr>trace := trace X @ [Delay 500, RecorderStop, CreateObjectURL b (outputUrl env),
                                            OnSave (outputUrl env)]\<rparr>" "r = Done ()"
    then show ?thesis
      by (intro exI [of _ "[Delay 500, RecorderStop, CreateObjectURL b (outputUrl env),
                                            OnSave (outputUrl env)]"]) simp
  qed
qed

lemma catchBlock_fields:
  "trace (catchBlock e src X) = trace X @ closeEvents X @ map RevokeObjectURL (tempMergeBlobs X)"
  "audioCtx (catchBlock e src X) = Closed"
  "errorMessage (catchBlock e src X) = Some e"
  "processing (catchBlock e src X) = False"
  "failedQueueIndices (catchBlock e src X) = failedQueueIndices X"
  "tempMergeBlobs (catchBlock e src X) = tempMergeBlobs X"
  by (simp_all add: catchBlock_def restoreSource_def revokeTempMergeBlobs_def cleanupAudio_def
      closeEvents_def)

lemma successCleanup_fields:
  "trace (successCleanup src X) =
     trace X @ DisconnectSource # closeEvents X @ map RevokeObjectURL (tempMergeBlobs X)"
  "audioCtx (successCleanup src X) = Closed"
  "errorMessage (successCleanup src X) = errorMessage X"
  "tempMergeBlobs (successCleanup src X) = tempMergeBlobs X"
  by (simp_all add: successCleanup_def restoreSource_def revokeTempMergeBlobs_def cleanupAudio_def
      closeEvents_def)

lemma closeEvents_tail: "list_all isTailEvent (closeEvents X)" "urlsCreated (closeEvents X) = []"
  by (simp_all add: closeEvents_def)

lemma run_shape:
  assumes run: "processVideo env allVideos st = (x, st')"
  shows "(x = Returned \<and> trace st' = []) \<or> (\<exists>ys zs pre. runShape env x st' ys zs pre)"
proof (cases "localVideoSrc st = None \<or> localVideoSrc st = Some [] \<or> \<not> refsPresent env")
  case True
  with run have "x = Returned \<and> trace st' = []"
    by (auto simp: processVideo_def Let_def split: option.splits if_splits)
  then show ?thesis by simp
next
  case False
  then obtain src where src: "localVideoSrc st = Some src" "src \<noteq> []" "refsPresent env"
    by auto
  let ?b = "beginJob env (st\<lparr>trace := []\<rparr>)"
  have pv: "(x, st') = (case tryBlock env allVideos src ?b of
               (Done u, st2) \<Rightarrow> (Returned, st2)
             | (Thrown e, st2) \<Rightarrow> (Returned, catchBlock e src st2)
             | (Pending, st2) \<Rightarrow> (Hung, st2))"
    using run src by (simp add: processVideo_def Let_def)
  obtain r1 st1 where bq: "beforeQueue env ?b = (r1, st1)"
    by (cases "beforeQueue env ?b")
  have "prepares ?b st1"
    using beforeQueue_prepares [of ?b env] bq by simp
  then obtain ys where
    keep1: "st1\<lparr>audioCtx := audioCtx ?b, videoTime := videoTime ?b, ctx := ctx ?b, trace := trace ?b\<rparr> = ?b"
    and ys: "trace st1 = trace ?b @ ys" "list_all isSetupEvent ys" "drawnFirst ys"
    unfolding prepares_def by blast
  have tr1: "trace st1 = [PauseVideo, NewAudioContext] @ ys"
    using ys(1) by (simp add: beginJob_def)
  have "tempMergeBlobs (st1\<lparr>audioCtx := audioCtx ?b, videoTime := videoTime ?b, ctx := ctx ?b, trace := trace ?b\<rparr>) = tempMergeBlobs ?b"
    "errorMessage (st1\<lparr>audioCtx := audioCtx ?b, videoTime := videoTime ?b, ctx := ctx ?b, trace := trace ?b\<rparr>) = errorMessage ?b"
    using keep1 by simp_all
  then have f1: "tempMergeBlobs st1 = []" "errorMessage st1 = None"
    by (simp_all add: beginJob_def)
  show ?thesis
  proof (cases r1)
    case (Thrown e)
    with pv bq have "x = Returned" "st' = catchBlock e src st1"
      by (simp_all add: tryBlock_def andThen_def)
    then have "runShape env x st' ys [] (closeEvents st1)"
      using tr1 ys f1 by (simp add: runShape_def catchBlock_fields closeEvents_tail)
    then show ?thesis by blast
  next
    case Pending
    with pv bq have "x = Hung" "st' = st1"
      by (simp_all add: tryBlock_def andThen_def)
    then have "runShape env x st' ys [] []"
      using tr1 ys f1 by (simp add: runShape_def)
    then show ?thesis by blast
  next
    case (Done res)
    obtain w h m where res: "res = (w, h, m)" by (cases res)
    obtain r2 st2 where ml: "mergeLoop env allVideos w h (enumerate 0 (mergeQueue st1)) st1 = (r2, st2)"
      by (cases "mergeLoop env allVideos w h (enumerate 0 (mergeQueue st1)) st1")
    from mergeLoop_merges [OF ml]
    have m2: "merges st1 (st2\<lparr>failedQueueIndices := failedQueueIndices st1\<rparr>)" by simp
    from merges_fields(1) [OF m2] obtain zs where
      zs: "trace st2 = trace st1 @ zs" "list_all isMergeEvent zs"
          "tempMergeBlobs st2 = tempMergeBlobs st1 @ urlsCreated zs"
      by auto
    from merges_fields(3) [OF m2] f1 have e2: "errorMessage st2 = None" by simp
    have tmp2: "tempMergeBlobs st2 = urlsCreated zs" using zs f1 by simp
    have tr2: "trace st2 = [PauseVideo, NewAudioContext] @ ys @ zs" using zs tr1 by simp
    have tb: "tryBlock env allVideos src ?b =
               andThen (r2, st2) (\<lambda>u st2. andThen (finishRecording env m st2)
                  (\<lambda>u st3. (Done (), successCleanup src st3)))"
      using bq Done res ml by (simp add: tryBlock_def andThen_def)
    show ?thesis
    proof (cases r2)
      case (Thrown e)
      with pv tb have "x = Returned" "st' = catchBlock e src st2"
        by (simp_all add: andThen_def)
      then have "runShape env x st' ys zs (closeEvents st2)"
        using tr2 ys zs tmp2 by (simp add: runShape_def catchBlock_fields closeEvents_tail)
      then show ?thesis by blast
    next
      case Pending
      with pv tb have "x = Hung" "st' = st2"
        by (simp_all add: andThen_def)
      then have "runShape env x st' ys zs []"
        using tr2 ys zs tmp2 by (simp add: runShape_def)
      then show ?thesis by blast
    next
      case d2: (Done u)
      obtain r3 st3 where fr: "finishRecording env m st2 = (r3, st3)"
        by (cases "finishRecording env m st2")
      from finishRecording_shape [OF fr] obtain fs where
        fs: "st3 = st2\<lparr>trace := trace st2 @ fs\<rparr>" "list_all isTailEvent fs"
            "set (urlsCreated fs) \<subseteq> {outputUrl env}" "r3 \<noteq> Done () \<longrightarrow> urlsCreated fs = []"
        by blast
      have tr3: "trace st3 = [PauseVideo, NewAudioContext] @ ys @ zs @ fs"
        and tmp3: "tempMergeBlobs st3 = urlsCreated zs"
        and e3: "errorMessage st3 = None"
        and ce: "closeEvents st3 = closeEvents st2"
        using fs(1) tr2 tmp2 e2 by (simp_all add: closeEvents_def)
      show ?thesis
      proof (cases r3)
        case (Thrown e)
        with pv tb d2 fr have "x = Returned" "st' = catchBlock e src st3"
          by (simp_all add: andThen_def)
        then have "runShape env x st' ys zs (fs @ closeEvents st3)"
          using tr3 ys zs tmp3 fs Thrown
          by (simp add: runShape_def catchBlock_fields closeEvents_tail urlsCreated_append)
        then show ?thesis by blast
      next
        case Pending
        with pv tb d2 fr have "x = Hung" "st' = st3"
          by (simp_all add: andThen_def)
        then have "runShape env x st' ys zs fs"
          using tr3 ys zs fs Pending e3 tmp3 by (simp add: runShape_def)
        then show ?thesis by blast
      next
        case d3: (Done u3)
        with pv tb d2 fr have "x = Returned" "st' = successCleanup src st3"
          by (simp_all add: andThen_def)
        then have "runShape env x st' ys zs (fs @ DisconnectSource # closeEvents st3)"
          using tr3 ys zs tmp3 fs e3
          by (simp add: runShape_def successCleanup_fields closeEvents_tail urlsCreated_append)
        then show ?thesis by blast
      qed
    qed
  qed
qed

lemma draw_not_capture: "isDrawFrame e \<Longrightarrow> \<not> isCaptureEvent e"
  by (cases e) simp_all

lemma merge_events_nocap:
  "list_all isMergeEvent zs \<Longrightarrow> list_all (\<lambda>e. \<not> isCaptureEvent e) zs"
proof (induction zs)
  case Nil
  show ?case by simp
next
  case (Cons e zs)
  then show ?case by (cases e) simp_all
qed

lemma tail_events_nocap:
  "list_all isTailEvent zs \<Longrightarrow> list_all (\<lambda>e. \<not> isCaptureEvent e) zs"
proof (induction zs)
  case Nil
  show ?case by simp
next
  case (Cons e zs)
  then show ?case by (cases e) simp_all
qed

lemma revoke_events_nocap: "list_all (\<lambda>e. \<not> isCaptureEvent e) (map RevokeObjectURL us)"
  by (induction us) simp_all

lemma nocap_nth:
  "list_all (\<lambda>e. \<not> isCaptureEvent e) xs \<Longrightarrow> k < length xs \<Longrightarrow> \<not> isCaptureEvent (xs ! k)"
  by (simp add: list_all_length)

lemma drawn_before:
  assumes p: "list_all (\<lambda>e. \<not> isCaptureEvent e) p"
    and ys: "drawnFirst ys"
    and zs: "list_all (\<lambda>e. \<not> isCaptureEvent e) zs"
    and k: "k < length (p @ ys @ zs)" "isCaptureEvent ((p @ ys @ zs) ! k)"
  shows "\<exists>j<k. isDrawFrame ((p @ ys @ zs) ! j)"
proof (cases "list_all (\<lambda>e. \<not> isCaptureEvent e) ys")
  case True
  with p zs have "list_all (\<lambda>e. \<not> isCaptureEvent e) (p @ ys @ zs)" by simp
  with k show ?thesis using nocap_nth by blast
next
  case False
  with ys obtain d rest where d: "ys = d # rest" "isDrawFrame d"
    by (cases ys) auto
  have at: "(p @ ys @ zs) ! length p = d"
    using d by simp
  have "\<not> k < length p"
  proof
    assume "k < length p"
    then have "(p @ ys @ zs) ! k = p ! k" by (simp add: nth_append)
    with p \<open>k < length p\<close> k(2) show False using nocap_nth by fastforce
  qed
  moreover have "k \<noteq> length p"
    using at d(2) k(2) draw_not_capture by auto
  ultimately have "length p < k" by simp
  with at d(2) show ?thesis by blast
qed






lemma mergeStep_load_fails:
  assumes "loadFails env i"
  shows "\<exists>e stF ys. mergeStep env w h i mergeId v st = (Thrown e, stF)
           \<and> trace stF = trace st @ Fetch (url v) # ys \<and> list_all isAbortEvent ys"
  using assms
  by (auto simp: loadFails_def mergeStep_def andThen_def fetchVideoAsBlobUrl_def loadClip_def Let_def
      split: settled.splits fetch_response.splits load_event.splits)

lemma setup_events_nosave: "list_all isSetupEvent ys \<Longrightarrow> OnSave u \<notin> set ys"
  by (induction ys) auto

lemma merge_events_nosave: "list_all isMergeEvent ys \<Longrightarrow> OnSave u \<notin> set ys"
  by (induction ys) auto

lemma abort_events_nosave: "list_all isAbortEvent ys \<Longrightarrow> OnSave u \<notin> set ys"
  by (induction ys) auto

lemma revoke_events_abort: "list_all isAbortEvent (map RevokeObjectURL us)"
  by (induction us) simp_all

lemma closeEvents_abort: "list_all isAbortEvent (closeEvents X)"
  by (simp add: closeEvents_def)

lemma enumerate_split:
  "i < length q \<Longrightarrow>
   enumerate 0 q = enumerate 0 (take i q) @ (i, q ! i) # enumerate (Suc i) (drop (Suc i) q)"
proof -
  assume i: "i < length q"
  then have "q = take i q @ q ! i # drop (Suc i) q"
    by (simp add: id_take_nth_drop)
  then have "enumerate 0 q = enumerate 0 (take i q @ q ! i # drop (Suc i) q)"
    by simp
  also have "\<dots> = enumerate 0 (take i q) @ enumerate (0 + length (take i q)) (q ! i # drop (Suc i) q)"
    by (rule enumerate_append_eq)
  finally show ?thesis using i by (simp add: min_def)
qed

text \<open>The definitions that evaluate a run on a concrete platform.\<close>

lemmas model_defs =
  processVideo_def beginJob_def tryBlock_def beforeQueue_def andThen_def resumeAudio_def
  setupCanvas_def startRecording_def playSegment_def startPlayback_def renderFrame_def
  getSupportedMimeType_def types_def mergeStep_def fetchVideoAsBlobUrl_def loadClip_def
  finishRecording_def recorderOnStop_def chunks_def newBlob_def successCleanup_def
  catchBlock_def cleanupAudio_def revokeTempMergeBlobs_def restoreSource_def

lemmas input_defs =
  goodEnv_def failEnv_def history_def mkVideo_def plan_def plainPlan_def loadedEditor_def
  handleLoadedMetadata_def initialEditor_def playbackOf_def playing_def clipBlob_def
  defaultContext_def enumerate_eq_zip Let_def

lemma fetched_append: "fetched (xs @ ys) = fetched xs @ fetched ys"
  by (induction xs rule: fetched.induct) simp_all

lemma segmentsPlayed_append: "segmentsPlayed (xs @ ys) = segmentsPlayed xs + segmentsPlayed ys"
  by (induction xs rule: segmentsPlayed.induct) simp_all

lemma drawn_append: "drawn (xs @ ys) = drawn xs @ drawn ys"
  by (induction xs rule: drawn.induct) simp_all

lemma drawImages:
  "fetched (map (\<lambda>s. Canvas (DrawImage (g s) 0 0 w h)) fs) = []"
  "segmentsPlayed (map (\<lambda>s. Canvas (DrawImage (g s) 0 0 w h)) fs) = 0"
  "drawn (map (\<lambda>s. Canvas (DrawImage (g s) 0 0 w h)) fs) = map g fs"
  by (induction fs) simp_all

lemma onFrame_clip:
  "\<exists>s\<in>set fs. e \<le> currentTime s \<Longrightarrow>
   trace (snd (onFrame e [] w h fs st)) =
     trace st @ map (\<lambda>s. Canvas (DrawImage (videoSrc st, currentTime s) 0 0 w h))
                  (takeWhile (\<lambda>s. currentTime s < e) fs) @ [PauseVideo]"
proof (induction fs arbitrary: st)
  case Nil
  then show ?case by simp
next
  case (Cons s fs)
  show ?case
  proof (cases "e \<le> currentTime s")
    case True
    then show ?thesis by simp
  next
    case False
    with Cons.prems have more: "\<exists>s\<in>set fs. e \<le> currentTime s" by auto
    let ?st' = "st\<lparr>videoTime := currentTime s, ctx := ctx st,
                    trace := trace st @ [Canvas (DrawImage (videoSrc st, currentTime s) 0 0 w h)]\<rparr>"
    have step: "onFrame e [] w h (s # fs) st = onFrame e [] w h fs ?st'"
      using False by (simp add: renderFrame_def Let_def not_le)
    show ?thesis
      unfolding step using Cons.IH [OF more, of ?st'] False by simp
  qed
qed

lemma mergeStep_goes:
  assumes "clipGoes env i"
  shows "fst (mergeStep env w h i mergeId v st) = Done ()
    \<and> (\<exists>zs. trace (snd (mergeStep env w h i mergeId v st)) = trace st @ zs
           \<and> fetched zs = [url v] \<and> segmentsPlayed zs = 1 \<and> drawn zs = clipFrames env i)
    \<and> failedQueueIndices (snd (mergeStep env w h i mergeId v st)) = failedQueueIndices st
    \<and> tempMergeBlobs (snd (mergeStep env w h i mergeId v st)) = tempMergeBlobs st @ [clipUrl env i]"
proof -
  from assms obtain b u d where
    f: "clipFetch env i = Resolves (ResponseOk b u)" and
    l: "clipLoad env i = LoadedData d" and
    p: "play (clipPlayback env i) = Resolves ()" and
    r: "\<exists>s\<in>set (frames (clipPlayback env i)). d \<le> currentTime s"
    by (auto simp: clipGoes_def list_ex_iff
        split: settled.splits fetch_response.splits load_event.splits)
  let ?st3 = "st\<lparr>trace := trace st @ [Fetch (url v), CreateObjectURL b u],
                  tempMergeBlobs := tempMergeBlobs st @ [u], videoSrc := u, videoTime := 0\<rparr>"
  let ?st4 = "?st3\<lparr>trace := trace ?st3 @ [PlayVideo]\<rparr>"
  let ?r = "onFrame d [] w h (frames (clipPlayback env i)) ?st4"
  let ?draws = "map (\<lambda>s. Canvas (DrawImage (u, currentTime s) 0 0 w h))
                  (takeWhile (\<lambda>s. currentTime s < d) (frames (clipPlayback env i)))"
  have step: "mergeStep env w h i mergeId v st = ?r"
    using f l p
    by (simp add: mergeStep_def andThen_def fetchVideoAsBlobUrl_def loadClip_def Let_def
        playSegment_def startPlayback_def)
  have fin: "fst ?r = Done ()"
    using r by (simp add: onFrame_outcome)
  have tr: "trace (snd ?r) =
      trace st @ ([Fetch (url v), CreateObjectURL b u, PlayVideo] @ ?draws @ [PauseVideo])"
    using onFrame_clip [OF r, of w h ?st4] by simp
  have ev: "fetched ([Fetch (url v), CreateObjectURL b u, PlayVideo] @ ?draws @ [PauseVideo]) = [url v]"
    "segmentsPlayed ([Fetch (url v), CreateObjectURL b u, PlayVideo] @ ?draws @ [PauseVideo]) = 1"
    "drawn ([Fetch (url v), CreateObjectURL b u, PlayVideo] @ ?draws @ [PauseVideo]) = clipFrames env i"
    by (simp_all add: fetched_append segmentsPlayed_append drawn_append drawImages
        clipFrames_def clipUrl_def f l)
  from onFrame_plays [of ?st4 d "[]" w h "frames (clipPlayback env i)"]
  have keep: "failedQueueIndices (snd ?r) = failedQueueIndices st"
    "tempMergeBlobs (snd ?r) = tempMergeBlobs st @ [u]"
    unfolding plays_def by auto
  have "\<exists>zs. trace (snd ?r) = trace st @ zs
           \<and> fetched zs = [url v] \<and> segmentsPlayed zs = 1 \<and> drawn zs = clipFrames env i"
    using tr ev by blast
  with fin keep f show ?thesis
    unfolding step by (simp add: clipUrl_def)
qed

lemma mergeLoop_goes:
  assumes "list_all (\<lambda>entry. resolvable allVideos entry \<longrightarrow> clipGoes env (fst entry)) q"
  shows "fst (mergeLoop env allVideos w h q st) = Done ()
    \<and> (\<exists>zs. trace (snd (mergeLoop env allVideos w h q st)) = trace st @ zs
           \<and> fetched zs = map (entryUrl allVideos) (filter (resolvable allVideos) q)
           \<and> segmentsPlayed zs = length (filter (resolvable allVideos) q)
           \<and> drawn zs = concat (map (\<lambda>entry. clipFrames env (fst entry))
                                     (filter (resolvable allVideos) q)))
    \<and> failedQueueIndices (snd (mergeLoop env allVideos w h q st)) = failedQueueIndices st
    \<and> tempMergeBlobs (snd (mergeLoop env allVideos w h q st)) =
        tempMergeBlobs st @ map (\<lambda>entry. clipUrl env (fst entry)) (filter (resolvable allVideos) q)"
  using assms
proof (induction q arbitrary: st)
  case Nil
  show ?case by simp
next
  case (Cons entry q)
  obtain i mergeId where entry: "entry = (i, mergeId)" by (cases entry)
  from Cons.prems have rest: "list_all (\<lambda>entry. resolvable allVideos entry \<longrightarrow> clipGoes env (fst entry)) q"
    by simp
  show ?case
  proof (cases "find (\<lambda>v. id_v v = mergeId) allVideos")
    case None
    then have skip: "mergeLoop env allVideos w h (entry # q) st = mergeLoop env allVideos w h q st"
      "\<not> resolvable allVideos entry"
      by (simp_all add: entry resolvable_def)
    show ?thesis
      using Cons.IH [OF rest, of st] skip by simp
  next
    case (Some v)
    then have res: "resolvable allVideos entry" "entryUrl allVideos entry = url v"
      by (simp_all add: entry resolvable_def entryUrl_def)
    with Cons.prems have "clipGoes env i" by (simp add: entry)
    note g = mergeStep_goes [OF this, of w h mergeId v st]
    obtain r1 st1 where ms: "mergeStep env w h i mergeId v st = (r1, st1)"
      by (cases "mergeStep env w h i mergeId v st")
    from g ms have r1: "r1 = Done ()"
      and keep: "failedQueueIndices st1 = failedQueueIndices st"
        "tempMergeBlobs st1 = tempMergeBlobs st @ [clipUrl env i]"
      by simp_all
    from g ms obtain zs1 where zs1: "trace st1 = trace st @ zs1" "fetched zs1 = [url v]"
        "segmentsPlayed zs1 = 1" "drawn zs1 = clipFrames env i"
      by auto
    have loop: "mergeLoop env allVideos w h (entry # q) st = mergeLoop env allVideos w h q st1"
      using Some ms r1 by (simp add: entry)
    from Cons.IH [OF rest, of st1] obtain zs2 where
      zs2: "trace (snd (mergeLoop env allVideos w h q st1)) = trace st1 @ zs2"
        "fetched zs2 = map (entryUrl allVideos) (filter (resolvable allVideos) q)"
        "segmentsPlayed zs2 = length (filter (resolvable allVideos) q)"
        "drawn zs2 = concat (map (\<lambda>entry. clipFrames env (fst entry))
                                 (filter (resolvable allVideos) q))"
      by blast
    have tr: "\<exists>zs. trace (snd (mergeLoop env allVideos w h q st1)) = trace st @ zs
           \<and> fetched zs = map (entryUrl allVideos) (filter (resolvable allVideos) (entry # q))
           \<and> segmentsPlayed zs = length (filter (resolvable allVideos) (entry # q))
           \<and> drawn zs = concat (map (\<lambda>entry. clipFrames env (fst entry))
                                     (filter (resolvable allVideos) (entry # q)))"
      using zs1 zs2 res
      by (intro exI [of _ "zs1 @ zs2"])
         (simp add: fetched_append segmentsPlayed_append drawn_append entry)
    show ?thesis
      unfolding loop
      using tr Cons.IH [OF rest, of st1] keep res by (simp add: entry)
  qed
qed

text \<open>
  C3. A queue entry whose id is not found in \<^verbatim>\<open>allVideos\<close> leaves the state, the trace
  and the failure marks as they are, and the loop goes on with the rest of the queue;
  so the merge loop on a queue is the merge loop on the queue without its unresolvable
  entries, the other entries keeping their indices: the same outcome, the same final
  state, the same effects. And when every resolvable entry's clip goes through, the loop
  completes, and what it has done is exactly the work for the resolvable entries, in queue
  order: it has fetched their URLs and no other, started one playback for each, drawn
  their frames and no other, created their object URLs, and marked no failure.
\<close>

theorem mergeLoop_skips_missing:
  "(find (\<lambda>v. id_v v = mergeId) allVideos = None \<longrightarrow>
      mergeLoop env allVideos w h ((i, mergeId) # rest) st = mergeLoop env allVideos w h rest st)
   \<and> mergeLoop env allVideos w h q st =
       mergeLoop env allVideos w h (filter (resolvable allVideos) q) st
   \<and> (list_all (\<lambda>entry. resolvable allVideos entry \<longrightarrow> clipGoes env (fst entry)) q \<longrightarrow>
        fst (mergeLoop env allVideos w h q st) = Done ()
        \<and> (\<exists>zs. trace (snd (mergeLoop env allVideos w h q st)) = trace st @ zs
               \<and> fetched zs = map (entryUrl allVideos) (filter (resolvable allVideos) q)
               \<and> segmentsPlayed zs = length (filter (resolvable allVideos) q)
               \<and> drawn zs = concat (map (\<lambda>entry. clipFrames env (fst entry))
                                         (filter (resolvable allVideos) q)))
        \<and> failedQueueIndices (snd (mergeLoop env allVideos w h q st)) = failedQueueIndices st
        \<and> tempMergeBlobs (snd (mergeLoop env allVideos w h q st)) =
            tempMergeBlobs st @ map (\<lambda>entry. clipUrl env (fst entry))
                                  (filter (resolvable allVideos) q))"
  using mergeLoop_filter [of env allVideos w h q st] mergeLoop_goes [of allVideos env q w h st]
  by simp

theorem mergeLoop_skips_missing_witness:
  "find (\<lambda>v. id_v v = ''gone'') history = None
   \<and> enumerate 0 (mergeQueue plan) = [(0, ''3''), (1, ''gone''), (2, ''1'')]
   \<and> filter (resolvable history) (enumerate 0 (mergeQueue plan)) = [(0, ''3''), (2, ''1'')]
   \<and> clipGoes goodEnv 0 \<and> clipGoes goodEnv 2
   \<and> mergeLoop goodEnv history 640 360 [(1, ''gone''), (2, ''1'')] plan =
       mergeLoop goodEnv history 640 360 [(2, ''1'')] plan
   \<and> mergeLoop goodEnv history 640 360 (enumerate 0 (mergeQueue plan)) plan =
       mergeLoop goodEnv history 640 360 [(0, ''3''), (2, ''1'')] plan
   \<and> fst (mergeLoop goodEnv history 640 360 (enumerate 0 (mergeQueue plan)) plan) = Done ()
   \<and> fetched (trace (snd (mergeLoop goodEnv history 640 360 (enumerate 0 (mergeQueue plan)) plan)))
       = [''https://v/3'', ''https://v/1'']
   \<and> segmentsPlayed (trace (snd (mergeLoop goodEnv history 640 360 (enumerate 0 (mergeQueue plan)) plan)))
       = 2
   \<and> drawn (trace (snd (mergeLoop goodEnv history 640 360 (enumerate 0 (mergeQueue plan)) plan)))
       = [(''blob:clip0'', 0), (''blob:clip2'', 0)]
   \<and> failedQueueIndices (snd (mergeLoop goodEnv history 640 360 (enumerate 0 (mergeQueue plan)) plan))
       = {}
   \<and> tempMergeBlobs (snd (mergeLoop goodEnv history 640 360 (enumerate 0 (mergeQueue plan)) plan))
       = [''blob:clip0'', ''blob:clip2'']"
proof -
  let ?q = "[(0, ''3''), (1, ''gone''), (2, ''1'')] :: (nat \<times> string) list"
  let ?run = "mergeLoop goodEnv history 640 360 ?q plan"
  have missing: "find (\<lambda>v. id_v v = ''gone'') history = None"
    by (simp add: history_def mkVideo_def)
  have q: "enumerate 0 (mergeQueue plan) = ?q"
    by (simp add: plan_def enumerate_eq_zip)
  have kept: "filter (resolvable history) ?q = [(0, ''3''), (2, ''1'')]"
    by (simp add: resolvable_def history_def mkVideo_def)
  have goes: "clipGoes goodEnv 0" "clipGoes goodEnv 2"
    by (simp_all add: clipGoes_def goodEnv_def playbackOf_def playing_def)
  have all: "list_all (\<lambda>entry. resolvable history entry \<longrightarrow> clipGoes goodEnv (fst entry)) ?q"
    using goes by (simp add: resolvable_def history_def mkVideo_def)
  have urls: "map (entryUrl history) [(0, ''3''), (2, ''1'')] = [''https://v/3'', ''https://v/1'']"
    by (simp add: entryUrl_def history_def mkVideo_def)
  have frames: "clipFrames goodEnv 0 = [(''blob:clip0'', 0)]" "clipFrames goodEnv 2 = [(''blob:clip2'', 0)]"
    "clipUrl goodEnv 0 = ''blob:clip0''" "clipUrl goodEnv 2 = ''blob:clip2''"
    by (simp_all add: clipFrames_def clipUrl_def goodEnv_def playbackOf_def playing_def)
  have start: "trace plan = []" "failedQueueIndices plan = {}" "tempMergeBlobs plan = []"
    by (simp_all add: plan_def loadedEditor_def handleLoadedMetadata_def initialEditor_def)
  note inst = mergeLoop_skips_missing [of "''gone''" history goodEnv 640 360 1 "[(2, ''1'')]" plan ?q]
  from inst missing have skip: "mergeLoop goodEnv history 640 360 [(1, ''gone''), (2, ''1'')] plan =
       mergeLoop goodEnv history 640 360 [(2, ''1'')] plan"
    by blast
  from inst kept have same: "?run = mergeLoop goodEnv history 640 360 [(0, ''3''), (2, ''1'')] plan"
    by simp
  from inst all kept urls frames start have run:
    "fst ?run = Done ()"
    "fetched (trace (snd ?run)) = [''https://v/3'', ''https://v/1'']"
    "segmentsPlayed (trace (snd ?run)) = 2"
    "drawn (trace (snd ?run)) = [(''blob:clip0'', 0), (''blob:clip2'', 0)]"
    "failedQueueIndices (snd ?run) = {}"
    "tempMergeBlobs (snd ?run) = [''blob:clip0'', ''blob:clip2'']"
    by auto
  from missing kept goes skip same run show ?thesis
    unfolding q by simp
qed

text \<open>
  C7. In the trace of every run of \<^verbatim>\<open>processVideo\<close>, the creation of the capture stream
  and the start of the recorder each come after a frame drawn on the processing canvas.
\<close>

theorem frame_drawn_before_capture:
  assumes "k < length (trace (snd (processVideo env allVideos st)))"
    and "isCaptureEvent (trace (snd (processVideo env allVideos st)) ! k)"
  shows "\<exists>j<k. isDrawFrame (trace (snd (processVideo env allVideos st)) ! j)"
proof -
  obtain x st' where run: "processVideo env allVideos st = (x, st')"
    by (cases "processVideo env allVideos st")
  from run_shape [OF run] assms run obtain ys zs pre where "runShape env x st' ys zs pre"
    by auto
  then have tr: "trace st' = [PauseVideo, NewAudioContext] @ ys
        @ (zs @ pre @ (if x = Returned then map RevokeObjectURL (urlsCreated zs) else []))"
    and ys: "drawnFirst ys"
    and rest: "list_all (\<lambda>e. \<not> isCaptureEvent e)
        (zs @ pre @ (if x = Returned then map RevokeObjectURL (urlsCreated zs) else []))"
    by (simp_all add: runShape_def merge_events_nocap tail_events_nocap revoke_events_nocap)
  have p: "list_all (\<lambda>e. \<not> isCaptureEvent e) [PauseVideo, NewAudioContext]" by simp
  from drawn_before [OF p ys rest] assms run tr show ?thesis
    by simp
qed

theorem frame_drawn_before_capture_witness:
  "take 4 (trace (snd (processVideo goodEnv history plainPlan))) =
     [PauseVideo, NewAudioContext, Canvas (DrawImage (''blob:main'', 0) 0 0 640 360),
      CaptureStream 30]
   \<and> 3 < length (trace (snd (processVideo goodEnv history plainPlan)))
   \<and> isCaptureEvent (trace (snd (processVideo goodEnv history plainPlan)) ! 3)
   \<and> (\<exists>j<3. isDrawFrame (trace (snd (processVideo goodEnv history plainPlan)) ! j))"
proof -
  let ?t = "trace (snd (processVideo goodEnv history plainPlan))"
  have t: "take 4 ?t = [PauseVideo, NewAudioContext,
      Canvas (DrawImage (''blob:main'', 0) 0 0 640 360), CaptureStream 30]"
    by (simp add: model_defs input_defs)
  have len: "3 < length ?t"
    by (simp add: model_defs input_defs)
  have "?t ! 3 = take 4 ?t ! 3" by simp
  with t have cap: "isCaptureEvent (?t ! 3)" by simp
  from frame_drawn_before_capture [OF len cap] t len cap show ?thesis
    by simp
qed




text \<open>
  C1. Let a run get past the set-up and the main segment and through the queue entries
  before index \<open>i\<close>, let the entry at \<open>i\<close> resolve to a video, and let loading that clip
  fail. Then the run returns in the error state (not processing, with the queue error for
  entry \<open>i + 1\<close> as its message) and with \<open>{i}\<close> as the set of failed indices; after the
  fetch for entry \<open>i\<close> it only creates the URL of the fetched blob (when the failure is
  in the load), closes the audio context and revokes URLs: no frame is rendered, no
  later entry is fetched; and \<^verbatim>\<open>onSave\<close> is not called anywhere in the run.
\<close>

theorem merge_load_failure_aborts:
  assumes run: "processVideo env allVideos st = (x, st')"
    and src: "localVideoSrc st = Some src" "src \<noteq> []" "refsPresent env"
    and bq: "beforeQueue env (beginJob env (st\<lparr>trace := []\<rparr>)) = (Done (w, h, m), st1)"
    and i: "i < length (mergeQueue st)"
    and before: "mergeLoop env allVideos w h (enumerate 0 (take i (mergeQueue st))) st1 = (Done (), st2)"
    and found: "find (\<lambda>v. id_v v = mergeQueue st ! i) allVideos = Some v"
    and fails: "loadFails env i"
  shows "x = Returned
    \<and> failedQueueIndices st' = {i}
    \<and> errorMessage st' = Some (QueueItemFailed (i + 1))
    \<and> \<not> processing st'
    \<and> (\<forall>u. OnSave u \<notin> set (trace st'))
    \<and> (\<exists>ys. trace st' = trace st2 @ Fetch (url v) # ys \<and> list_all isAbortEvent ys)"
proof -
  let ?b = "beginJob env (st\<lparr>trace := []\<rparr>)"
  let ?q = "mergeQueue st"
  have "prepares ?b st1"
    using beforeQueue_prepares [of ?b env] bq by simp
  then obtain ys1 where
    keep1: "st1\<lparr>audioCtx := audioCtx ?b, videoTime := videoTime ?b, ctx := ctx ?b, trace := trace ?b\<rparr> = ?b"
    and ys1: "trace st1 = trace ?b @ ys1" "list_all isSetupEvent ys1"
    unfolding prepares_def by blast
  have "mergeQueue (st1\<lparr>audioCtx := audioCtx ?b, videoTime := videoTime ?b, ctx := ctx ?b, trace := trace ?b\<rparr>) = mergeQueue ?b"
    "failedQueueIndices (st1\<lparr>audioCtx := audioCtx ?b, videoTime := videoTime ?b, ctx := ctx ?b, trace := trace ?b\<rparr>) = failedQueueIndices ?b"
    using keep1 by simp_all
  then have f1: "mergeQueue st1 = ?q" "failedQueueIndices st1 = {}"
    by (simp_all add: beginJob_def)
  have tr1: "trace st1 = [PauseVideo, NewAudioContext] @ ys1"
    using ys1(1) by (simp add: beginJob_def)
  from mergeLoop_merges [OF before]
  have m2: "merges st1 (st2\<lparr>failedQueueIndices := failedQueueIndices st1\<rparr>)"
    and fq2: "failedQueueIndices st2 = failedQueueIndices st1"
    by simp_all
  from merges_fields(1) [OF m2] obtain zs where
    zs: "trace st2 = trace st1 @ zs" "list_all isMergeEvent zs"
    by auto
  from mergeStep_load_fails [OF fails, of w h "?q ! i" v st2] obtain e stF ys where
    step: "mergeStep env w h i (?q ! i) v st2 = (Thrown e, stF)"
    and trF: "trace stF = trace st2 @ Fetch (url v) # ys" "list_all isAbortEvent ys"
    by blast
  have "merges st2 stF"
    using mergeStep_merges [of st2 env w h i "?q ! i" v] step by simp
  then have fqF: "failedQueueIndices stF = failedQueueIndices st2"
    by (rule merges_fields)
  let ?stF' = "stF\<lparr>failedQueueIndices := insert i (failedQueueIndices stF)\<rparr>"
  have loop: "mergeLoop env allVideos w h (enumerate 0 (mergeQueue st1)) st1 =
                (Thrown (QueueItemFailed (i + 1)), ?stF')"
    using before found step
    by (simp add: f1 enumerate_split [OF i] mergeLoop_append)
  have "tryBlock env allVideos src ?b = (Thrown (QueueItemFailed (i + 1)), ?stF')"
    using bq loop by (simp add: tryBlock_def andThen_def)
  with run src have res: "x = Returned" "st' = catchBlock (QueueItemFailed (i + 1)) src ?stF'"
    by (simp_all add: processVideo_def Let_def)
  let ?tail = "ys @ closeEvents ?stF' @ map RevokeObjectURL (tempMergeBlobs ?stF')"
  have tr: "trace st' = trace st2 @ Fetch (url v) # ?tail"
    using res(2) trF(1) by (simp add: catchBlock_fields)
  have tail: "list_all isAbortEvent ?tail"
    using trF(2) by (simp add: closeEvents_abort revoke_events_abort)
  have nosave: "OnSave u \<notin> set (trace st')" for u
    using tr tr1 zs ys1(2) tail
      setup_events_nosave [of ys1 u] merge_events_nosave [of zs u] abort_events_nosave [of ?tail u]
    by simp
  have "failedQueueIndices st' = {i}"
    using res(2) fqF fq2 f1 by (simp add: catchBlock_fields)
  moreover have "errorMessage st' = Some (QueueItemFailed (i + 1))" "\<not> processing st'"
    using res(2) by (simp_all add: catchBlock_fields)
  ultimately show ?thesis
    using res(1) nosave tr tail by blast
qed

theorem merge_load_failure_witness:
  "loadFails failEnv 2
   \<and> find (\<lambda>v. id_v v = mergeQueue plan ! 2) history = Some (mkVideo ''1'' ''https://v/1'' ''16:9'')
   \<and> fst (processVideo failEnv history plan) = Returned
   \<and> failedQueueIndices (snd (processVideo failEnv history plan)) = {2}
   \<and> errorMessage (snd (processVideo failEnv history plan)) = Some (QueueItemFailed 3)
   \<and> \<not> processing (snd (processVideo failEnv history plan))"
proof -
  let ?b = "beginJob failEnv (plan\<lparr>trace := []\<rparr>)"
  let ?st1 = "snd (beforeQueue failEnv ?b)"
  let ?pre = "mergeLoop failEnv history 640 360 (enumerate 0 (take 2 (mergeQueue plan))) ?st1"
  let ?v = "mkVideo ''1'' ''https://v/1'' ''16:9''"
  have run: "processVideo failEnv history plan =
      (fst (processVideo failEnv history plan), snd (processVideo failEnv history plan))"
    by simp
  have src: "localVideoSrc plan = Some ''blob:main''" "''blob:main'' \<noteq> []" "refsPresent failEnv"
    by (simp_all add: input_defs)
  have "fst (beforeQueue failEnv ?b) = Done (640, 360, ''video/webm'')"
    by (simp add: model_defs input_defs)
  then have bq: "beforeQueue failEnv ?b = (Done (640, 360, ''video/webm''), ?st1)"
    by (metis prod.collapse)
  have i: "2 < length (mergeQueue plan)"
    by (simp add: input_defs)
  have "fst ?pre = Done ()"
    by (simp add: model_defs input_defs)
  then have before: "?pre = (Done (), snd ?pre)"
    by (metis prod.collapse)
  have found: "find (\<lambda>v. id_v v = mergeQueue plan ! 2) history = Some ?v"
    by (simp add: input_defs)
  have fails: "loadFails failEnv 2"
    by (simp add: loadFails_def input_defs)
  from merge_load_failure_aborts [OF run src bq i before found fails] found fails
  show ?thesis by simp
qed

end
